theory Spec2Isabelle
  imports Main
begin

section \<open>JavaScript strings\<close>

text \<open>
  A JavaScript string is modelled as a \<^typ>\<open>string\<close>: each \<^typ>\<open>char\<close> stands for the
  UTF-16 code unit with the same number, so the model covers the strings whose code
  units are below 256 (Latin-1). Lengths, \<open>substring\<close> and the regular expressions of the
  source count code units, as \<^const>\<open>length\<close> and \<^const>\<open>take\<close> do here.
\<close>

text \<open>
  The characters matched by \<open>\s\<close> and removed by \<open>String.prototype.trim\<close>; below 256
  these are TAB, LF, VT, FF, CR, SPACE and NBSP.
\<close>

definition isWhiteSpace :: "char \<Rightarrow> bool" where
  "isWhiteSpace c = (c \<in> set [CHR 0x09, CHR 0x0A, CHR 0x0B, CHR 0x0C, CHR 0x0D, CHR 0x20, CHR 0xA0])"

text \<open>\<open>s.trim()\<close>\<close>

definition trim :: "string \<Rightarrow> string" where
  "trim s = rev (dropWhile isWhiteSpace (rev (dropWhile isWhiteSpace s)))"

text \<open>\<open>xs.join(sep)\<close>\<close>

fun join :: "string \<Rightarrow> string list \<Rightarrow> string" where
  "join sep [] = []"
| "join sep [x] = x"
| "join sep (x # y # ys) = x @ sep @ join sep (y # ys)"

text \<open>
  A property that may be missing: \<open>None\<close> is \<open>undefined\<close>. \<open>truthy\<close> is the test of
  \<open>if (v)\<close> on a string or \<open>undefined\<close>, \<open>orElse v d\<close> is \<open>v || d\<close>.
\<close>

definition truthy :: "string option \<Rightarrow> bool" where
  "truthy v = (case v of None \<Rightarrow> False | Some s \<Rightarrow> s \<noteq> [])"

definition orElse :: "string option \<Rightarrow> string \<Rightarrow> string" where
  "orElse v d = (case v of None \<Rightarrow> d | Some s \<Rightarrow> if s = [] then d else s)"

section \<open>The document formatter: \<open>MarkdownConverter.formatConversation\<close>\<close>

record message =
  role :: string
  content :: string

record conversation =
  conv_id :: "string option"
  conv_title :: "string option"
  conv_date :: "string option"
  conv_url :: "string option"
  conv_messages :: "message list"

text \<open>The six lines pushed by one turn of the loop over \<open>conversation.messages\<close>.\<close>

definition messageLines :: "message \<Rightarrow> string list" where
  "messageLines m =
     [''## '' @ (if role m = ''user'' then ''User'' else ''Assistant''),
      '''', content m, '''', ''---'', '''']"

text \<open>The lines pushed before the loop: the title, the metadata that is present, the rule.\<close>

definition headerLines :: "conversation \<Rightarrow> string list" where
  "headerLines c =
     [''# '' @ orElse (conv_title c) ''Untitled Conversation'', ''''] @
     (if truthy (conv_date c) then [''**Date**: '' @ the (conv_date c)] else []) @
     (if truthy (conv_url c) then [''**URL**: '' @ the (conv_url c)] else []) @
     ['''', ''---'', '''']"

definition formatConversation :: "conversation \<Rightarrow> string" where
  "formatConversation c =
     trim (join ''\<newline>'' (headerLines c @ concat (map messageLines (conv_messages c)))) @ ''\<newline>''"

section \<open>The filename sanitizer: \<open>MarkdownConverter.sanitizeFilename\<close>\<close>

text \<open>\<open>.replace(/[<>:"/\\|?*]/g, '')\<close>\<close>

definition isInvalidChar :: "char \<Rightarrow> bool" where
  "isInvalidChar c = (c \<in> set [CHR ''<'', CHR ''>'', CHR '':'', CHR 0x22, CHR ''/'', CHR 0x5C,
                                 CHR ''|'', CHR ''?'', CHR ''*''])"

definition removeInvalid :: "string \<Rightarrow> string" where
  "removeInvalid s = filter (\<lambda>c. \<not> isInvalidChar c) s"

text \<open>
  \<open>.replace(/\s+/g, '_')\<close>: every maximal run of white space becomes one underscore.
\<close>

function replaceSpaces :: "string \<Rightarrow> string" where
  "replaceSpaces [] = []"
| "replaceSpaces (c # cs) =
     (if isWhiteSpace c then CHR ''_'' # replaceSpaces (dropWhile isWhiteSpace cs)
      else c # replaceSpaces cs)"
  by pat_completeness auto
termination
  by (relation "measure length") (auto simp: length_dropWhile_le less_Suc_eq_le)

text \<open>\<open>.replace(/_+/g, '_')\<close>: every maximal run of underscores becomes one underscore.\<close>

function collapseUnderscores :: "string \<Rightarrow> string" where
  "collapseUnderscores [] = []"
| "collapseUnderscores (c # cs) =
     (if c = CHR ''_'' then CHR ''_'' # collapseUnderscores (dropWhile (\<lambda>d. d = CHR ''_'') cs)
      else c # collapseUnderscores cs)"
  by pat_completeness auto
termination
  by (relation "measure length") (auto simp: length_dropWhile_le less_Suc_eq_le)

text \<open>
  \<open>.replace(/^_|_$/g, '')\<close>: the global scan removes an underscore at index 0, and then an
  underscore at the last index when that is another character.
\<close>

definition trimUnderscores :: "string \<Rightarrow> string" where
  "trimUnderscores s =
     (let s1 = (case s of [] \<Rightarrow> [] | c # cs \<Rightarrow> if c = CHR ''_'' then cs else s)
      in if s1 \<noteq> [] \<and> last s1 = CHR ''_'' then butlast s1 else s1)"

definition sanitizeFilename :: "string \<Rightarrow> string" where
  "sanitizeFilename title =
     (if title = [] then ''untitled''
      else let r = take 100 (trimUnderscores (collapseUnderscores (replaceSpaces (removeInvalid title))))
           in if r = [] then ''untitled'' else r)"

section \<open>The document tree\<close>

text \<open>
  A DOM node is a text node, an element, or a node of another kind (a comment). An element
  carries its namespace, \<open>tagName.toLowerCase()\<close>, its attributes by name and its child
  nodes. The namespace is \<open>Svg\<close> for an element of the SVG namespace and \<open>Html\<close> for
  every other element; the two differ in \<open>className\<close>. The DOM's \<open>parentElement\<close> is not
  stored in the node: the functions below that look upwards (\<open>parentElement\<close>,
  \<open>closest\<close>) take the chain of ancestor elements, nearest first.
\<close>

datatype namespace = Html | Svg

datatype node =
    TextNode string
  | ElementNode namespace string "(string \<times> string) list" "node list"
  | OtherNode

fun tagName :: "node \<Rightarrow> string" where
  "tagName (ElementNode ns t as kids) = t"
| "tagName n = []"

fun childNodes :: "node \<Rightarrow> node list" where
  "childNodes (ElementNode ns t as kids) = kids"
| "childNodes n = []"

fun getAttribute :: "node \<Rightarrow> string \<Rightarrow> string option" where
  "getAttribute (ElementNode ns t as kids) name = map_of as name"
| "getAttribute n name = None"

definition hasTag :: "string \<Rightarrow> node \<Rightarrow> bool" where
  "hasTag t n = (case n of ElementNode ns t' as kids \<Rightarrow> t' = t | _ \<Rightarrow> False)"

text \<open>\<open>element.textContent\<close>: the text of all descendant text nodes, in document order.\<close>

fun textContent :: "node \<Rightarrow> string" where
  "textContent (TextNode t) = t"
| "textContent (ElementNode ns t as kids) = concat (map textContent kids)"
| "textContent OtherNode = []"

text \<open>
  The descendants of a node in document order, each with its own ancestor chain;
  \<open>anc\<close> is the chain of the node itself.
\<close>

fun descendants :: "node list \<Rightarrow> node \<Rightarrow> (node list \<times> node) list" where
  "descendants anc (ElementNode ns t as kids) =
     concat (map (\<lambda>k. (ElementNode ns t as kids # anc, k) # descendants (ElementNode ns t as kids # anc) k) kids)"
| "descendants anc n = []"

definition querySelectorAll :: "(node \<Rightarrow> bool) \<Rightarrow> node list \<Rightarrow> node \<Rightarrow> (node list \<times> node) list" where
  "querySelectorAll sel anc n = filter (\<lambda>(a, k). sel k) (descendants anc n)"

definition querySelector :: "(node \<Rightarrow> bool) \<Rightarrow> node \<Rightarrow> node option" where
  "querySelector sel n = (case querySelectorAll sel [] n of [] \<Rightarrow> None | (a, k) # r \<Rightarrow> Some k)"

text \<open>\<open>element.closest(sel)\<close> looks at the element itself first, then at its ancestors.\<close>

definition closest :: "(node \<Rightarrow> bool) \<Rightarrow> node list \<Rightarrow> node \<Rightarrow> node option" where
  "closest sel anc n = find sel (n # anc)"

text \<open>
  \<open>element.className\<close>. On an SVG element it is not a string but an
  \<open>SVGAnimatedString\<close> object; on every other element it is the value of the \<open>class\<close>
  attribute, the empty string when the attribute is absent.
\<close>

datatype class_name = ClassString string | SVGAnimatedString

definition className :: "node \<Rightarrow> class_name" where
  "className n =
     (case n of
        ElementNode Svg t as kids \<Rightarrow> SVGAnimatedString
      | _ \<Rightarrow> ClassString (case getAttribute n ''class'' of None \<Rightarrow> [] | Some v \<Rightarrow> v))"

text \<open>
  \<open>element.classList\<close>, on elements of every namespace: the \<open>class\<close> attribute split at
  ASCII white space (TAB, LF, FF, CR, SPACE), each token once, in order of first
  occurrence.
\<close>

definition isAsciiSpace :: "char \<Rightarrow> bool" where
  "isAsciiSpace c = (c \<in> set [CHR 0x09, CHR 0x0A, CHR 0x0C, CHR 0x0D, CHR 0x20])"

fun splitTokens :: "string \<Rightarrow> string \<Rightarrow> string list" where
  "splitTokens cur [] = (if cur = [] then [] else [cur])"
| "splitTokens cur (c # cs) =
     (if isAsciiSpace c then (if cur = [] then splitTokens [] cs else cur # splitTokens [] cs)
      else splitTokens (cur @ [c]) cs)"

definition classList :: "node \<Rightarrow> string list" where
  "classList n =
     rev (remdups (rev (splitTokens [] (case getAttribute n ''class'' of None \<Rightarrow> [] | Some v \<Rightarrow> v))))"

text \<open>The selector \<open>.c\<close>.\<close>

definition hasClass :: "string \<Rightarrow> node \<Rightarrow> bool" where
  "hasClass c n = (c \<in> set (classList n))"

text \<open>\<open>s.startsWith(p)\<close>, \<open>s.includes(p)\<close> and \<open>s.replace(p, r)\<close> for a string pattern \<open>p\<close>.\<close>

definition startsWith :: "string \<Rightarrow> string \<Rightarrow> bool" where
  "startsWith s p = (take (length p) s = p)"

fun includesStr :: "string \<Rightarrow> string \<Rightarrow> bool" where
  "includesStr [] p = (p = [])"
| "includesStr (c # cs) p = (startsWith (c # cs) p \<or> includesStr cs p)"

fun replaceFirst :: "string \<Rightarrow> string \<Rightarrow> string \<Rightarrow> string" where
  "replaceFirst [] p r = (if p = [] then r else [])"
| "replaceFirst (c # cs) p r =
     (if startsWith (c # cs) p then r @ drop (length p) (c # cs) else c # replaceFirst cs p r)"

text \<open>The selector \<open>[class*="language-"]\<close>.\<close>

definition classContainsLanguage :: "node \<Rightarrow> bool" where
  "classContainsLanguage n =
     (case getAttribute n ''class'' of None \<Rightarrow> False | Some v \<Rightarrow> includesStr v ''language-'')"

text \<open>\<open>\w\<close> and the first capture of \<open>s.match(/language-(\w+)/)\<close>.\<close>

definition isWordChar :: "char \<Rightarrow> bool" where
  "isWordChar c = (let n = (of_char c :: nat)
     in (48 \<le> n \<and> n \<le> 57) \<or> (65 \<le> n \<and> n \<le> 90) \<or> (97 \<le> n \<and> n \<le> 122) \<or> n = 95)"

fun matchLanguage :: "string \<Rightarrow> string option" where
  "matchLanguage [] = None"
| "matchLanguage (c # cs) =
     (if startsWith (c # cs) ''language-'' \<and> takeWhile isWordChar (drop 9 (c # cs)) \<noteq> []
      then Some (takeWhile isWordChar (drop 9 (c # cs)))
      else matchLanguage cs)"

text \<open>\<open>s.toLowerCase()\<close> on code units below 256.\<close>

definition toLowerChar :: "char \<Rightarrow> char" where
  "toLowerChar c = (let n = (of_char c :: nat)
     in if (65 \<le> n \<and> n \<le> 90) \<or> (192 \<le> n \<and> n \<le> 222 \<and> n \<noteq> 215) then char_of (n + 32) else c)"

definition toLowerCase :: "string \<Rightarrow> string" where
  "toLowerCase s = map toLowerChar s"

text \<open>\<open>s.split('\n')\<close> and the decimal numeral of \<open>`${n}`\<close>.\<close>

fun splitOn :: "char \<Rightarrow> string \<Rightarrow> string list" where
  "splitOn d [] = [[]]"
| "splitOn d (c # cs) =
     (if c = d then [] # splitOn d cs
      else (case splitOn d cs of [] \<Rightarrow> [[c]] | x # xs \<Rightarrow> (c # x) # xs))"

function showNat :: "nat \<Rightarrow> string" where
  "showNat n = (if n < 10 then [char_of (48 + n)] else showNat (n div 10) @ [char_of (48 + n mod 10)])"
  by pat_completeness auto
termination
  by (relation "measure id") auto

section \<open>The Markdown transducer: \<open>MarkdownConverter.htmlToMarkdown\<close>\<close>

text \<open>
  The functions of the converter can throw: the result of a call is an option, and
  \<open>None\<close> stands for the exception. The only exception the converter raises is the
  \<open>TypeError\<close> of \<open>detectLanguage\<close> below, whose message in the browser the extension is
  written for is \<open>typeErrorMessage\<close>; no caller inside the converter catches it.
\<close>

definition typeErrorMessage :: string where
  "typeErrorMessage = ''parent.className.match is not a function''"

subsection \<open>\<open>detectLanguage\<close>\<close>

text \<open>The first class of the code element that starts with \<open>language-\<close> or \<open>lang-\<close>.\<close>

fun classLanguage :: "string list \<Rightarrow> string option" where
  "classLanguage [] = None"
| "classLanguage (cls # classes) =
     (if startsWith cls ''language-'' then Some (replaceFirst cls ''language-'' [])
      else if startsWith cls ''lang-'' then Some (replaceFirst cls ''lang-'' [])
      else classLanguage classes)"

text \<open>
  The three steps of \<open>detectLanguage\<close>. In the third, \<open>parent.className.match(...)\<close> is a
  call of \<open>undefined\<close> when \<open>parent\<close> is an SVG element: it throws the \<open>TypeError\<close>.
\<close>

definition detectLanguage :: "node list \<Rightarrow> node \<Rightarrow> string option" where
  "detectLanguage anc preElement =
     (case (case querySelector (hasTag ''code'') preElement of
              None \<Rightarrow> None | Some codeElement \<Rightarrow> classLanguage (classList codeElement)) of
        Some l \<Rightarrow> Some l
      | None \<Rightarrow>
         (case (case closest (hasClass ''bg-black'') anc preElement of
                  None \<Rightarrow> None | Some b \<Rightarrow> querySelector (hasClass ''text-xs'') b) of
            Some langIndicator \<Rightarrow> Some (toLowerCase (trim (textContent langIndicator)))
          | None \<Rightarrow>
             (case closest classContainsLanguage anc preElement of
                None \<Rightarrow> Some []
              | Some parent \<Rightarrow>
                 (case className parent of
                    SVGAnimatedString \<Rightarrow> None
                  | ClassString s \<Rightarrow> Some (case matchLanguage s of None \<Rightarrow> [] | Some w \<Rightarrow> w)))))"

subsection \<open>\<open>processNode\<close>, \<open>processList\<close>, \<open>processTable\<close>\<close>

text \<open>\<open>node.parentElement && node.parentElement.tagName.toLowerCase() === 'pre'\<close>\<close>

definition parentIsPre :: "node list \<Rightarrow> bool" where
  "parentIsPre anc = (case anc of [] \<Rightarrow> False | p # ps \<Rightarrow> tagName p = ''pre'')"

text \<open>\<open>.replace(/\|/g, '\\|')\<close>\<close>

definition escapePipes :: "string \<Rightarrow> string" where
  "escapePipes s = concat (map (\<lambda>c. if c = CHR ''|'' then [CHR 0x5C, CHR ''|''] else [c]) s)"

lemma size_child: "k \<in> set kids \<Longrightarrow> size k < Suc (size_list size kids)"
  by (induction kids) auto

lemma size_descendants: "(a, k) \<in> set (descendants anc n) \<Longrightarrow> size k < size n"
proof (induction anc n arbitrary: a k rule: descendants.induct)
  case (1 anc ns t as kids)
  then obtain c where c: "c \<in> set kids"
    and d: "(a, k) = (ElementNode ns t as kids # anc, c) \<or> (a, k) \<in> set (descendants (ElementNode ns t as kids # anc) c)"
    by auto
  from d have "size k \<le> size c"
  proof
    assume "(a, k) = (ElementNode ns t as kids # anc, c)"
    then show ?thesis by simp
  next
    assume "(a, k) \<in> set (descendants (ElementNode ns t as kids # anc) c)"
    with "1.IH" c show ?thesis by (simp add: less_imp_le)
  qed
  with size_child [OF c] show ?case by simp
qed simp_all

lemma enumerate_member: "(i, x) \<in> set (enumerate n xs) \<Longrightarrow> x \<in> set xs"
  by (auto simp: enumerate_eq_zip dest: set_zip_rightD)

lemma size_querySelectorAll: "(a, k) \<in> set (querySelectorAll sel anc n) \<Longrightarrow> size k < size n"
  by (auto simp: querySelectorAll_def dest: size_descendants)

text \<open>
  \<open>processNode\<close> converts the children first; an exception in a child leaves the
  function before the \<open>switch\<close>. \<open>those\<close> turns the list of the children's results into
  the list of their strings, or into \<open>None\<close> when one of them is an exception.
\<close>

function processNode :: "node list \<Rightarrow> node \<Rightarrow> string option"
  and processList :: "node list \<Rightarrow> node \<Rightarrow> bool \<Rightarrow> string option"
  and processTable :: "node list \<Rightarrow> node \<Rightarrow> string option"
where
  "processNode anc (TextNode t) = Some t"
| "processNode anc OtherNode = Some []"
| "processNode anc (ElementNode ns tag as kids) =
     (case those (map (processNode (ElementNode ns tag as kids # anc)) kids) of
        None \<Rightarrow> None
      | Some parts \<Rightarrow>
         (let children = concat parts
          in if tag = ''h1'' then Some (''# '' @ children @ ''\<newline>\<newline>'')
             else if tag = ''h2'' then Some (''## '' @ children @ ''\<newline>\<newline>'')
             else if tag = ''h3'' then Some (''### '' @ children @ ''\<newline>\<newline>'')
             else if tag = ''h4'' then Some (''#### '' @ children @ ''\<newline>\<newline>'')
             else if tag = ''h5'' then Some (''##### '' @ children @ ''\<newline>\<newline>'')
             else if tag = ''h6'' then Some (''###### '' @ children @ ''\<newline>\<newline>'')
             else if tag = ''strong'' \<or> tag = ''b'' then Some (''**'' @ children @ ''**'')
             else if tag = ''em'' \<or> tag = ''i'' then Some (''*'' @ children @ ''*'')
             else if tag = ''u'' then Some (''<u>'' @ children @ ''</u>'')
             else if tag = ''s'' \<or> tag = ''strike'' \<or> tag = ''del'' then Some (''~~'' @ children @ ''~~'')
             else if tag = ''code'' then
               (if parentIsPre anc then Some children else Some (''`'' @ children @ ''`''))
             else if tag = ''pre'' then
               (case detectLanguage anc (ElementNode ns tag as kids) of
                  None \<Rightarrow> None
                | Some language \<Rightarrow>
                    Some (''\<newline>```'' @ language @ ''\<newline>'' @
                          (case querySelector (hasTag ''code'') (ElementNode ns tag as kids) of
                             Some codeElement \<Rightarrow> textContent codeElement
                           | None \<Rightarrow> textContent (ElementNode ns tag as kids)) @
                          ''\<newline>```\<newline>\<newline>''))
             else if tag = ''ul'' then
               map_option (\<lambda>list. list @ ''\<newline>'') (processList anc (ElementNode ns tag as kids) False)
             else if tag = ''ol'' then
               map_option (\<lambda>list. list @ ''\<newline>'') (processList anc (ElementNode ns tag as kids) True)
             else if tag = ''li'' then Some children
             else if tag = ''a'' then
               Some (''['' @ children @ '']('' @ orElse (map_of as ''href'') [] @ '')'')
             else if tag = ''img'' then
               Some (''!['' @ orElse (map_of as ''alt'') ''image'' @ '']('' @ orElse (map_of as ''src'') [] @ '')'')
             else if tag = ''p'' then Some (children @ ''\<newline>\<newline>'')
             else if tag = ''br'' then Some ''\<newline>''
             else if tag = ''hr'' then Some ''\<newline>---\<newline>\<newline>''
             else if tag = ''blockquote'' then
               Some (join ''\<newline>'' (map (\<lambda>line. ''> '' @ line) (splitOn CHR 0x0A children)) @ ''\<newline>\<newline>'')
             else if tag = ''table'' then
               map_option (\<lambda>table. table @ ''\<newline>\<newline>'') (processTable anc (ElementNode ns tag as kids))
             else if tag = ''div'' \<or> tag = ''span'' \<or> tag = ''section'' \<or> tag = ''article'' then Some children
             else Some children))"
| "processList anc listElement ordered =
     map_option (join ''\<newline>'')
       (those (map (\<lambda>(index, item).
                      map_option (\<lambda>content. (if ordered then showNat (index + 1) @ ''. '' else ''- '') @ trim content)
                        (processNode (listElement # anc) item))
                 (enumerate 0 (filter (hasTag ''li'') (childNodes listElement)))))"
| "processTable anc tableElement =
     (if querySelectorAll (hasTag ''tr'') anc tableElement = [] then Some []
      else map_option (\<lambda>result. join ''\<newline>'' (concat result))
        (those (map (\<lambda>(rowIndex, (ranc, row)).
            map_option (\<lambda>cellContents.
                (''| '' @ join '' | '' cellContents @ '' |'') #
                (if rowIndex = 0
                 then [''| '' @ join '' | ''
                         (map (\<lambda>c. ''---'') (querySelectorAll (\<lambda>n. hasTag ''th'' n \<or> hasTag ''td'' n) ranc row)) @ '' |'']
                 else []))
              (those (map (\<lambda>(canc, cell). map_option (\<lambda>content. escapePipes (trim content)) (processNode canc cell))
                        (querySelectorAll (\<lambda>n. hasTag ''th'' n \<or> hasTag ''td'' n) ranc row))))
          (enumerate 0 (querySelectorAll (hasTag ''tr'') anc tableElement)))))"
  by pat_completeness auto

termination
proof (relation "measure (\<lambda>x. case x of Inl (anc, n) \<Rightarrow> 2 * size n + 1
                                  | Inr (Inl (anc, n, ordered)) \<Rightarrow> 2 * size n
                                  | Inr (Inr (anc, n)) \<Rightarrow> 2 * size n)", goal_cases)
  case 1
  show ?case by simp
next
  case (2 anc ns tag as kids x)
  then show ?case using size_child [of x kids] by simp
next
  case 3
  show ?case by simp
next
  case 4
  show ?case by simp
next
  case 5
  show ?case by simp
next
  case (6 anc listElement ordered x index item)
  then have "item \<in> set (filter (hasTag ''li'') (childNodes listElement))"
    using enumerate_member by fastforce
  then have "item \<in> set (childNodes listElement)"
    by simp
  then have "size item < size listElement"
    by (cases listElement) (auto dest: size_child)
  then show ?case by simp
next
  case (7 anc tableElement x rowIndex y ranc row c canc cell)
  then have "(ranc, row) \<in> set (querySelectorAll (hasTag ''tr'') anc tableElement)"
    using enumerate_member by fastforce
  then have "size row < size tableElement"
    by (rule size_querySelectorAll)
  moreover from 7 have "size cell < size row"
    by (auto dest: size_querySelectorAll)
  ultimately show ?case by simp
qed

text \<open>
  An element of a page is given as its ancestor chain and the node itself.
  \<open>cloneNode(true)\<close> copies the node with its subtree; the copy has no parent, so its
  ancestor chain is empty.
\<close>

type_synonym element = "node list \<times> node"

definition cloneNode :: "element \<Rightarrow> element" where
  "cloneNode el = ([], snd el)"

text \<open>
  \<open>htmlToMarkdown(element)\<close>: a missing element gives the empty string; otherwise the
  element is cloned and the clone is converted.
\<close>

definition htmlToMarkdown :: "element option \<Rightarrow> string option" where
  "htmlToMarkdown element =
     (case element of
        None \<Rightarrow> Some []
      | Some el \<Rightarrow> (case cloneNode el of (anc, clone) \<Rightarrow> map_option trim (processNode anc clone)))"
section \<open>The sidebar list loader: \<open>loadAllSidebarConversations\<close>\<close>

text \<open>
  The scroll container of the sidebar: its \<open>scrollTop\<close>, and how many times the loop has
  scrolled it to the bottom.
\<close>

record scroller =
  scrollTop :: nat
  scrolled :: nat

text \<open>
  What the page shows while the loader runs: \<open>linkCount k\<close> is the number of sidebar links
  at the \<open>k\<close>-th call of \<open>getAllConversationLinks\<close> (call 0 is the one before the
  loop, call \<open>k\<close> the one of iteration \<open>k\<close>), \<open>scrollHeight k\<close> the height read in
  iteration \<open>k\<close>.
\<close>

record sidebar_env =
  linkCount :: "nat \<Rightarrow> nat"
  scrollHeight :: "nat \<Rightarrow> nat"

text \<open>
  The \<open>while (attempts < maxScrollAttempts)\<close> loop; \<open>await sleep(800)\<close> returns. The
  result is \<open>currentCount\<close> and the scroll container when the loop is left.
\<close>

function scrollLoop :: "sidebar_env \<Rightarrow> nat \<Rightarrow> nat \<Rightarrow> nat \<Rightarrow> scroller \<Rightarrow> nat \<times> scroller" where
  "scrollLoop env attempts currentCount noChangeCount sc =
     (if attempts < 50 then
        (let sc1 = sc\<lparr>scrollTop := scrollHeight env (attempts + 1), scrolled := scrolled sc + 1\<rparr>;
             lastCount = currentCount;
             newCount = linkCount env (attempts + 1)
         in if newCount = lastCount then
              (if noChangeCount + 1 \<ge> 3 then (newCount, sc1)
               else scrollLoop env (attempts + 1) newCount (noChangeCount + 1) sc1)
            else scrollLoop env (attempts + 1) newCount 0 sc1)
      else (currentCount, sc))"
  by pat_completeness auto
termination
  by (relation "measure (\<lambda>(env, attempts, currentCount, noChangeCount, sc). 50 - attempts)") auto

text \<open>
  \<open>container\<close> is \<open>None\<close> when the page has no \<open>nav\<close> element: the loader returns 0 at
  once. Otherwise a scroll container exists (the \<open>nav\<close> itself at least, so the test
  \<open>!scrollContainer\<close> never holds), the loop runs, and \<open>scrollTop\<close> is set to 0.
\<close>

definition loadAllSidebarConversations :: "sidebar_env \<Rightarrow> scroller option \<Rightarrow> nat \<times> scroller option" where
  "loadAllSidebarConversations env container =
     (case container of
        None \<Rightarrow> (0, None)
      | Some sc \<Rightarrow>
          (case scrollLoop env 0 (linkCount env 0) 0 sc of
             (currentCount, sc1) \<Rightarrow> (currentCount, Some (sc1\<lparr>scrollTop := 0\<rparr>))))"

declare scrollLoop.simps [simp del]

section \<open>The Tracking Store and the Download Sink\<close>

text \<open>
  A JavaScript \<open>Set\<close> of strings is the list of its elements in insertion order.
  \<open>setFromArray\<close> is \<open>new Set(array)\<close>, \<open>setAdd\<close> is \<open>set.add(x)\<close>, and
  \<open>Array.from(set)\<close> is the list itself.
\<close>

definition setFromArray :: "string list \<Rightarrow> string list" where
  "setFromArray xs = rev (remdups (rev xs))"

definition setAdd :: "string \<Rightarrow> string list \<Rightarrow> string list" where
  "setAdd x s = (if x \<in> set s then s else s @ [x])"

text \<open>
  The state outside the content script: the key \<open>exportedConversations\<close> of
  \<open>chrome.storage.local\<close> (\<open>None\<close> when the key is absent), the service worker's set
  \<open>exportedConversations\<close>, the download messages the content scripts have sent, the files
  handed to \<open>chrome.downloads\<close>, and the sidebar's scroll container.
\<close>

record request =
  req_filename :: string
  req_content :: string
  req_conversationId :: "string option"

record world =
  storage :: "string list option"
  swExported :: "string list"
  sinkCalls :: "request list"
  downloads :: "(string \<times> string) list"
  container :: "scroller option"

text \<open>
  \<open>chrome.downloads.download\<close> resolves with a download id or rejects with an error whose
  message is given.
\<close>

datatype api_outcome = Started nat | Rejected string

text \<open>The response of the service worker: \<open>{success: true, downloadId}\<close> or \<open>{success: false, error}\<close>.\<close>

datatype response = Success "nat option" | Failure string

fun success :: "response \<Rightarrow> bool" where
  "success (Success d) = True"
| "success (Failure e) = False"

text \<open>
  \<open>downloadFile\<close> of the service worker. The data URL carries the content; the model
  keeps the content itself. A rejected download leaves the tracking untouched.
\<close>

definition downloadFile :: "request \<Rightarrow> api_outcome \<Rightarrow> world \<Rightarrow> response \<times> world" where
  "downloadFile req api w =
     (case api of
        Rejected e \<Rightarrow> (Failure e, w)
      | Started downloadId \<Rightarrow>
          (let w1 = w\<lparr>downloads := downloads w @ [(''chatgpt-exports/'' @ req_filename req, req_content req)]\<rparr>;
               w2 = (if truthy (req_conversationId req)
                     then w1\<lparr>swExported := setAdd (the (req_conversationId req)) (swExported w1),
                             storage := Some (setAdd (the (req_conversationId req)) (swExported w1))\<rparr>
                     else w1)
           in (Success (Some downloadId), w2)))"

text \<open>\<open>getExportedConversations\<close> and \<open>markAsExported\<close> of the content script.\<close>

definition getExportedConversations :: "world \<Rightarrow> string list" where
  "getExportedConversations w = setFromArray (case storage w of None \<Rightarrow> [] | Some a \<Rightarrow> a)"

definition markAsExported :: "string option \<Rightarrow> world \<Rightarrow> world" where
  "markAsExported conversationId w =
     (if \<not> truthy conversationId then w
      else w\<lparr>storage := Some (setAdd (the conversationId) (getExportedConversations w))\<rparr>)"

text \<open>
  \<open>chrome.runtime.sendMessage({action: 'download', ...}, callback)\<close>: the message is logged
  as a call of the Download Sink. Either it reaches the service worker, which runs
  \<open>downloadFile\<close> and answers, or the callback runs with \<open>chrome.runtime.lastError\<close> set
  and no response.
\<close>

datatype delivery = Delivered api_outcome | LastError string

definition sendDownload :: "request \<Rightarrow> delivery \<Rightarrow> world \<Rightarrow> (string + response) \<times> world" where
  "sendDownload req d w =
     (let w1 = w\<lparr>sinkCalls := sinkCalls w @ [req]\<rparr>
      in case d of
           LastError e \<Rightarrow> (Inl e, w1)
         | Delivered api \<Rightarrow> (case downloadFile req api w1 of (r, w2) \<Rightarrow> (Inr r, w2)))"

section \<open>Extraction: \<open>extractCurrentConversation\<close>\<close>

text \<open>
  \<open>getConversationIdFromUrl\<close>, as a function of \<open>window.location.pathname\<close>: the first
  capture of the leftmost match of \<open>/\/c\/([a-f0-9-]+)/\<close>, or \<open>null\<close>.
\<close>

definition isIdChar :: "char \<Rightarrow> bool" where
  "isIdChar c = (let n = (of_char c :: nat)
     in (97 \<le> n \<and> n \<le> 102) \<or> (48 \<le> n \<and> n \<le> 57) \<or> n = 45)"

fun getConversationIdFromUrl :: "string \<Rightarrow> string option" where
  "getConversationIdFromUrl [] = None"
| "getConversationIdFromUrl (c # cs) =
     (if startsWith (c # cs) ''/c/'' \<and> takeWhile isIdChar (drop 3 (c # cs)) \<noteq> []
      then Some (takeWhile isIdChar (drop 3 (c # cs)))
      else getConversationIdFromUrl cs)"

text \<open>
  What the content script reads from the page: for every element matching
  \<open>[data-message-author-role]\<close> the value of that attribute and the first descendant
  matching \<open>.markdown, .whitespace-pre-wrap\<close> if there is one; the result of
  \<open>getConversationTitle()\<close>; \<open>window.location.pathname\<close>; the date stamp;
  \<open>window.location.href\<close>.
\<close>

record page =
  messageGroups :: "(string \<times> element option) list"
  pageTitle :: string
  pathname :: string
  today :: string
  locationHref :: string

text \<open>
  One turn of \<open>messageGroups.forEach\<close>: the messages it pushes, or \<open>None\<close> when
  \<open>htmlToMarkdown\<close> throws.
\<close>

definition extractMessage :: "string \<times> element option \<Rightarrow> message list option" where
  "extractMessage g =
     (case g of (r, contentElement) \<Rightarrow>
        if r = [] \<or> (r \<noteq> ''user'' \<and> r \<noteq> ''assistant'') then Some []
        else (case contentElement of
                None \<Rightarrow> Some []
              | Some e \<Rightarrow>
                  (case htmlToMarkdown (Some e) of
                     None \<Rightarrow> None
                   | Some markdownContent \<Rightarrow>
                       Some (if trim markdownContent \<noteq> [] then [\<lparr>role = r, content = markdownContent\<rparr>]
                             else []))))"

text \<open>
  \<open>extractCurrentConversation\<close> returns a conversation (\<open>Some (Some c)\<close>), returns
  \<open>null\<close> (\<open>Some None\<close>), or throws the exception of the converter (\<open>None\<close>).
\<close>

definition extractCurrentConversation :: "page \<Rightarrow> conversation option option" where
  "extractCurrentConversation p =
     (if messageGroups p = [] then Some None
      else (case those (map extractMessage (messageGroups p)) of
              None \<Rightarrow> None
            | Some pushed \<Rightarrow>
               (let messages = concat pushed
                in if messages = [] then Some None
                   else Some (Some \<lparr>conv_id = getConversationIdFromUrl (pathname p),
                                     conv_title = Some (pageTitle p),
                                     conv_date = Some (today p), conv_url = Some (locationHref p),
                                     conv_messages = messages\<rparr>))))"

text \<open>\<open>sanitizeFilename(conversation.title) + '.md'\<close>; an absent title is falsy like the empty one.\<close>

definition exportFilename :: "conversation \<Rightarrow> string" where
  "exportFilename c = sanitizeFilename (case conv_title c of None \<Rightarrow> [] | Some t \<Rightarrow> t) @ ''.md''"

section \<open>The single-item path: \<open>exportCurrentConversation\<close>\<close>

text \<open>
  The callback resolves with \<open>response || {success: true}\<close>; the id is marked only when
  \<open>response.success && conversation.id\<close>. The result is the response the promise
  resolves with, or \<open>None\<close> when the promise rejects: \<open>extractCurrentConversation\<close> is
  called before the \<open>try\<close> block, so its exception is not caught.
\<close>

definition exportCurrentConversation :: "page \<Rightarrow> delivery \<Rightarrow> world \<Rightarrow> response option \<times> world" where
  "exportCurrentConversation p d w =
     (case extractCurrentConversation p of
        None \<Rightarrow> (None, w)
      | Some None \<Rightarrow> (Some (Failure ''Could not extract conversation''), w)
      | Some (Some conversation) \<Rightarrow>
          (case sendDownload \<lparr>req_filename = exportFilename conversation,
                               req_content = formatConversation conversation,
                               req_conversationId = conv_id conversation\<rparr> d w of
             (answer, w1) \<Rightarrow>
               (let response = (case answer of Inl e \<Rightarrow> Success None | Inr r \<Rightarrow> r)
                in if success response \<and> truthy (conv_id conversation)
                   then (Some response, markAsExported (conv_id conversation) w1)
                   else (Some response, w1))))"

section \<open>The batch run: \<open>exportAllConversations\<close>\<close>

text \<open>\<open>getAllConversationLinks\<close>, from the \<open>href\<close> and the text of every sidebar link.\<close>

record link =
  link_id :: string
  link_title :: string
  link_href :: string
  link_url :: string

definition getAllConversationLinks :: "(string \<times> string) list \<Rightarrow> link list" where
  "getAllConversationLinks anchors =
     map (\<lambda>(href, text).
            \<lparr>link_id = replaceFirst href ''/c/'' [],
             link_title = (if trim text = [] then ''Untitled'' else trim text),
             link_href = href,
             link_url = ''https://chatgpt.com'' @ href\<rparr>) anchors"

text \<open>
  \<open>waitForConversationLoad\<close>: \<open>polled k\<close> is what the \<open>k\<close>-th turn of the loop sees
  (\<open>window.location.pathname\<close> and the number of message elements); \<open>late k\<close> is by how
  many milliseconds the \<open>k\<close>-th \<open>sleep(200)\<close> overshoots. \<open>elapsed\<close> is
  \<open>Date.now() - startTime\<close>.
\<close>

function waitLoop :: "(nat \<Rightarrow> string \<times> nat) \<Rightarrow> (nat \<Rightarrow> nat) \<Rightarrow> string \<Rightarrow> nat \<Rightarrow> nat \<Rightarrow> nat \<Rightarrow> bool" where
  "waitLoop polled late expectedId timeout elapsed k =
     (if elapsed < timeout then
        (if getConversationIdFromUrl (fst (polled k)) = Some expectedId \<and> 0 < snd (polled k) then True
         else waitLoop polled late expectedId timeout (elapsed + 200 + late k) (Suc k))
      else False)"
  by pat_completeness auto
termination
  by (relation "measure (\<lambda>(polled, late, expectedId, timeout, elapsed, k). timeout - elapsed)") auto

declare waitLoop.simps [simp del]

text \<open>
  The lookup \<open>document.querySelector(`a[href="${link.href}"]`)\<close> finds the link element,
  finds none, or throws a \<open>SyntaxError\<close> with the given message when the \<open>href\<close> makes
  the selector invalid (a double quote in it, for one).
\<close>

datatype lookup = Found | NotFound | SyntaxError string

text \<open>
  What happens around one candidate: how the lookup of its link element ends, what the
  polling sees, the page that is extracted, how the download message fares, and the
  exports that another context (another tab, the change watcher) completes through the
  single-item path while this item waits for its page.
\<close>

record item_env =
  linkElement :: lookup
  polled :: "nat \<Rightarrow> string \<times> nat"
  late :: "nat \<Rightarrow> nat"
  shown :: page
  delivered :: delivery
  concurrent :: "(page \<times> delivery) list"

definition waitForConversationLoad :: "string \<Rightarrow> item_env \<Rightarrow> bool" where
  "waitForConversationLoad expectedId e = waitLoop (polled e) (late e) expectedId 10000 0 0"

record results =
  res_total :: nat
  res_exported :: nat
  res_skipped :: nat
  res_failed :: nat
  res_errors :: "string list"

record progress =
  pr_current :: nat
  pr_total :: nat
  pr_title :: string
  pr_status :: string

record batch =
  results :: results
  exportedSet :: "string list"
  outside :: world
  events :: "progress list"

definition report :: "nat \<Rightarrow> nat \<Rightarrow> string \<Rightarrow> string \<Rightarrow> batch \<Rightarrow> batch" where
  "report cur tot title status st =
     st\<lparr>events := events st @ [\<lparr>pr_current = cur, pr_total = tot, pr_title = title, pr_status = status\<rparr>]\<rparr>"

definition itemFailed :: "string \<Rightarrow> batch \<Rightarrow> batch" where
  "itemFailed msg st =
     st\<lparr>results := (results st)\<lparr>res_failed := res_failed (results st) + 1,
                                  res_errors := res_errors (results st) @ [msg]\<rparr>\<rparr>"

definition runConcurrent :: "(page \<times> delivery) list \<Rightarrow> world \<Rightarrow> world" where
  "runConcurrent cs w = foldl (\<lambda>w (p, d). snd (exportCurrentConversation p d w)) w cs"

text \<open>
  One turn of the \<open>for\<close> loop, for the candidate \<open>l\<close> at index \<open>i\<close> of \<open>n\<close> links, in
  the order of the source: the \<open>checking\<close> event; the test \<open>exportedSet.has(link.id)\<close>;
  the \<open>loading\<close> event; the lookup of the link element; the click and the wait for the
  page, during which other contexts run; the \<open>exporting\<close> event; the extraction; the
  download message, whose promise rejects only when \<open>chrome.runtime.lastError\<close> is set
  and resolves with whatever response arrives otherwise; \<open>markAsExported\<close>,
  \<open>exportedSet.add\<close> and \<open>results.exported++\<close>. An exception inside the \<open>try\<close> block
  (the \<open>SyntaxError\<close> of the lookup, the \<open>TypeError\<close> of the converter, the rejected
  promise) ends in the \<open>catch\<close> block, which counts a failure with the message
  \<open>Error: title - message\<close>. The progress callback is the one the message listener
  passes. The browser's promises are taken to settle; \<open>await sleep(1500)\<close> changes
  nothing that the model holds.
\<close>

definition processLink :: "nat \<Rightarrow> nat \<Rightarrow> link \<Rightarrow> item_env \<Rightarrow> batch \<Rightarrow> batch" where
  "processLink i n l e st =
     (let st1 = report (i + 1) n (link_title l) ''checking'' st
      in if link_id l \<in> set (exportedSet st1)
         then st1\<lparr>results := (results st1)\<lparr>res_skipped := res_skipped (results st1) + 1\<rparr>\<rparr>
         else
          (let st2 = report (i + 1) n (link_title l) ''loading'' st1
           in case linkElement e of
                SyntaxError err \<Rightarrow> itemFailed (''Error: '' @ link_title l @ '' - '' @ err) st2
              | NotFound \<Rightarrow> itemFailed (''Link not found: '' @ link_title l) st2
              | Found \<Rightarrow>
               (let st3 = st2\<lparr>outside := runConcurrent (concurrent e) (outside st2)\<rparr>
                in if \<not> waitForConversationLoad (link_id l) e
                   then itemFailed (''Timeout loading: '' @ link_title l) st3
                   else
                    (let st4 = report (i + 1) n (link_title l) ''exporting'' st3
                     in case extractCurrentConversation (shown e) of
                          None \<Rightarrow> itemFailed (''Error: '' @ link_title l @ '' - '' @ typeErrorMessage) st4
                        | Some None \<Rightarrow> itemFailed (''Failed to extract: '' @ link_title l) st4
                        | Some (Some conversation) \<Rightarrow>
                            (case sendDownload \<lparr>req_filename = exportFilename conversation,
                                                 req_content = formatConversation conversation,
                                                 req_conversationId = Some (link_id l)\<rparr>
                                    (delivered e) (outside st4) of
                               (Inl err, w1) \<Rightarrow>
                                 itemFailed (''Error: '' @ link_title l @ '' - '' @ err) (st4\<lparr>outside := w1\<rparr>)
                             | (Inr response, w1) \<Rightarrow>
                                 st4\<lparr>outside := markAsExported (Some (link_id l)) w1,
                                      exportedSet := setAdd (link_id l) (exportedSet st4),
                                      results := (results st4)\<lparr>res_exported := res_exported (results st4) + 1\<rparr>\<rparr>)))))"

fun exportLoop :: "(nat \<Rightarrow> item_env) \<Rightarrow> nat \<Rightarrow> nat \<Rightarrow> link list \<Rightarrow> batch \<Rightarrow> batch" where
  "exportLoop env i n [] st = st"
| "exportLoop env i n (l # ls) st = exportLoop env (i + 1) n ls (processLink i n l (env i) st)"

text \<open>
  The whole run: the sidebar is loaded, the links are read from the page as it is then,
  the tracking set is read once, and the loop runs. The result is the returned object
  (\<open>Inl\<close> the error of \<open>{success: false, error}\<close>, \<open>Inr\<close> the results), the world, and
  the progress events in the order they were reported.
\<close>

record run_env =
  sidebar :: sidebar_env
  anchors :: "(string \<times> string) list"
  item :: "nat \<Rightarrow> item_env"

definition exportAllConversations :: "run_env \<Rightarrow> world \<Rightarrow> (string + results) \<times> world \<times> progress list" where
  "exportAllConversations env w =
     (let ev0 = [\<lparr>pr_current = 0, pr_total = 0, pr_title = ''Loading all conversations...'',
                  pr_status = ''scrolling sidebar''\<rparr>];
          w1 = w\<lparr>container := snd (loadAllSidebarConversations (sidebar env) (container w))\<rparr>;
          links = getAllConversationLinks (anchors env)
      in if links = [] then (Inl ''No conversations found in sidebar'', w1, ev0)
         else
          (let st = exportLoop (item env) 0 (length links) links
                      \<lparr>results = \<lparr>res_total = length links, res_exported = 0, res_skipped = 0,
                                   res_failed = 0, res_errors = []\<rparr>,
                       exportedSet = getExportedConversations w1,
                       outside = w1,
                       events = ev0\<rparr>
           in (Inr (results st), outside st, events st)))"

section \<open>Predicates and inputs used in the properties\<close>

text \<open>
  A character that the sanitizer leaves alone: not removed, not white space, not an
  underscore.
\<close>

definition plainChar :: "char \<Rightarrow> bool" where
  "plainChar c = (\<not> isInvalidChar c \<and> \<not> isWhiteSpace c \<and> c \<noteq> CHR ''_'')"

text \<open>
  The sanitizer described without its replacements. The characters it removes are
  \<open>< > : " / \ | ? *\<close>. What is left is cut into words at the separators, the white
  space characters and the underscore: \<open>splitWhere\<close> gives the pieces between the
  separators, \<open>wordsOf\<close> the pieces that are not empty. \<open>joinedWords\<close> is the words of
  the title after the removal, joined by single underscores.
\<close>

definition invalidCharacters :: string where
  "invalidCharacters = ''<>:'' @ [CHR 0x22] @ ''/'' @ [CHR 0x5C] @ ''|?*''"

definition isSeparator :: "char \<Rightarrow> bool" where
  "isSeparator c = (isWhiteSpace c \<or> c = CHR ''_'')"

fun splitWhere :: "(char \<Rightarrow> bool) \<Rightarrow> string \<Rightarrow> string list" where
  "splitWhere P [] = [[]]"
| "splitWhere P (c # cs) =
     (if P c then [] # splitWhere P cs
      else (case splitWhere P cs of [] \<Rightarrow> [[c]] | x # xs \<Rightarrow> (c # x) # xs))"

definition wordsOf :: "string \<Rightarrow> string list" where
  "wordsOf s = filter (\<lambda>w. w \<noteq> []) (splitWhere isSeparator s)"

definition joinedWords :: "string \<Rightarrow> string" where
  "joinedWords t = join ''_'' (wordsOf (filter (\<lambda>c. c \<notin> set invalidCharacters) t))"

text \<open>
  The conversation of the end-to-end scenario: title \<open>Greeting\<close>, no date, no url, a
  user message \<open>Hi\<close> and an assistant message \<open>Hello\<close>.
\<close>

definition greeting :: conversation where
  "greeting = \<lparr>conv_id = None, conv_title = Some ''Greeting'', conv_date = None, conv_url = None,
     conv_messages = [\<lparr>role = ''user'', content = ''Hi''\<rparr>, \<lparr>role = ''assistant'', content = ''Hello''\<rparr>]\<rparr>"





text \<open>
  A code block as ChatGPT renders it: a \<open>pre\<close> element, in it a \<open>div\<close>, in that the
  \<open>code\<close> element. And a fragment in which a \<open>pre\<close> element lies inside an SVG element
  whose class contains \<open>language-\<close>.
\<close>

definition nestedCode :: node where
  "nestedCode = ElementNode Html ''code'' [(''class'', ''language-python'')] [TextNode ''x = 1'']"

definition codeWrapper :: node where
  "codeWrapper = ElementNode Html ''div'' [(''class'', ''overflow-y-auto'')] [nestedCode]"

definition codeBlock :: node where
  "codeBlock = ElementNode Html ''pre'' [] [codeWrapper]"


text \<open>
  The cells of a table row (a row comes with its ancestor chain), the line the table
  formatter prints for it (\<open>None\<close> when the conversion of a cell throws), and the
  separator line with one \<open>---\<close> per cell.
\<close>

definition tableCells :: "node list \<times> node \<Rightarrow> (node list \<times> node) list" where
  "tableCells r = querySelectorAll (\<lambda>n. hasTag ''th'' n \<or> hasTag ''td'' n) (fst r) (snd r)"

definition tableRow :: "node list \<times> node \<Rightarrow> string option" where
  "tableRow r =
     map_option (\<lambda>cellContents. ''| '' @ join '' | '' cellContents @ '' |'')
       (those (map (\<lambda>(canc, cell). map_option (\<lambda>content. escapePipes (trim content)) (processNode canc cell))
                 (tableCells r)))"

definition separatorRow :: "node list \<times> node \<Rightarrow> string" where
  "separatorRow r = ''| '' @ join '' | '' (replicate (length (tableCells r)) ''---'') @ '' |''"

text \<open>A table with the header row H1, H2 and the data row a, b.\<close>

definition table2x2 :: node where
  "table2x2 = ElementNode Html ''table'' []
     [ElementNode Html ''thead'' [] [ElementNode Html ''tr'' []
        [ElementNode Html ''th'' [] [TextNode ''H1''], ElementNode Html ''th'' [] [TextNode ''H2'']]],
      ElementNode Html ''tbody'' [] [ElementNode Html ''tr'' []
        [ElementNode Html ''td'' [] [TextNode ''a''], ElementNode Html ''td'' [] [TextNode ''b'']]]]"

text \<open>
  Iteration \<open>k\<close> of the loader left the number of links unchanged: the test
  \<open>currentCount === lastCount\<close>.
\<close>

definition unchangedAt :: "sidebar_env \<Rightarrow> nat \<Rightarrow> bool" where
  "unchangedAt env k = (linkCount env k = linkCount env (k - 1))"

text \<open>
  Three sidebars: one whose list shrinks by one link in every iteration, one that grows
  from 5 to 8 links and then stays, one that grows by ten links in every iteration.
\<close>

definition shrinkingSidebar :: sidebar_env where
  "shrinkingSidebar = \<lparr>linkCount = (\<lambda>k. 100 - k), scrollHeight = (\<lambda>k. 900)\<rparr>"

definition stallingSidebar :: sidebar_env where
  "stallingSidebar = \<lparr>linkCount = (\<lambda>k. if k = 0 then 5 else 8), scrollHeight = (\<lambda>k. 900)\<rparr>"

definition growingSidebar :: sidebar_env where
  "growingSidebar = \<lparr>linkCount = (\<lambda>k. 10 * k), scrollHeight = (\<lambda>k. 900)\<rparr>"

text \<open>The three ways one turn of the loop can change the tally.\<close>

definition countedExported :: "results \<Rightarrow> results \<Rightarrow> bool" where
  "countedExported r r' = (r' = r\<lparr>res_exported := res_exported r + 1\<rparr>)"

definition countedSkipped :: "results \<Rightarrow> results \<Rightarrow> bool" where
  "countedSkipped r r' = (r' = r\<lparr>res_skipped := res_skipped r + 1\<rparr>)"

definition countedFailed :: "results \<Rightarrow> results \<Rightarrow> bool" where
  "countedFailed r r' =
     (\<exists>msg. r' = r\<lparr>res_failed := res_failed r + 1, res_errors := res_errors r @ [msg]\<rparr>)"

text \<open>The \<open>checking\<close> event reported for the link at index \<open>fst il\<close>.\<close>

definition isChecking :: "progress \<Rightarrow> bool" where
  "isChecking p = (pr_status p = ''checking'')"

definition checkingEvent :: "nat \<Rightarrow> nat \<times> link \<Rightarrow> progress" where
  "checkingEvent n il =
     \<lparr>pr_current = fst il + 1, pr_total = n, pr_title = link_title (snd il), pr_status = ''checking''\<rparr>"


text \<open>
  Inputs of the scenarios: the content element of a user message \<open>Hi\<close> inside its
  message group; a page at the path \<open>/c/cid\<close> that shows this one message; a candidate
  whose link is found and whose page is loaded at the first poll; a sidebar with two
  links that never change; a world with nothing tracked.
\<close>

definition userContent :: node where
  "userContent = ElementNode Html ''div'' [(''class'', ''whitespace-pre-wrap'')] [TextNode ''Hi'']"

definition userGroup :: node where
  "userGroup = ElementNode Html ''div'' [(''data-message-author-role'', ''user'')] [userContent]"

definition userPage :: "string \<Rightarrow> page" where
  "userPage cid =
     \<lparr>messageGroups = [(''user'', Some ([userGroup], userContent))],
      pageTitle = ''Chat'', pathname = ''/c/'' @ cid, today = ''2026-01-30'',
      locationHref = ''https://chatgpt.com/c/'' @ cid\<rparr>"

definition loadedItem :: "string \<Rightarrow> delivery \<Rightarrow> (page \<times> delivery) list \<Rightarrow> item_env" where
  "loadedItem cid d cs =
     \<lparr>linkElement = Found, polled = (\<lambda>k. (''/c/'' @ cid, 1)), late = (\<lambda>k. 0),
      shown = userPage cid, delivered = d, concurrent = cs\<rparr>"

definition steadySidebar :: sidebar_env where
  "steadySidebar = \<lparr>linkCount = (\<lambda>k. 2), scrollHeight = (\<lambda>k. 900)\<rparr>"

definition freshWorld :: world where
  "freshWorld = \<lparr>storage = None, swExported = [], sinkCalls = [], downloads = [],
                  container = Some \<lparr>scrollTop = 0, scrolled = 0\<rparr>\<rparr>"

text \<open>A run with one candidate, whose download the browser rejects.\<close>

definition failingRun :: run_env where
  "failingRun = \<lparr>sidebar = steadySidebar, anchors = [(''/c/abc'', ''Chat'')],
                  item = (\<lambda>k. loadedItem ''abc'' (Delivered (Rejected ''Download failed'')) [])\<rparr>"

text \<open>
  A run of two candidates from an empty tracking store: while the first one (\<open>a1\<close>)
  waits for its page, another tab exports the second one (\<open>b1\<close>) through the single-item
  path. \<open>racingFirst\<close> is the state after the first turn of the loop, \<open>racingSecond\<close>
  the state after the second.
\<close>

definition linkOf :: "string \<Rightarrow> string \<Rightarrow> link" where
  "linkOf cid title =
     \<lparr>link_id = cid, link_title = title, link_href = ''/c/'' @ cid, link_url = ''https://chatgpt.com/c/'' @ cid\<rparr>"




text \<open>
  A world that tracks \<open>d1\<close>; a run whose only candidate is \<open>d1\<close>; a run of three
  candidates: \<open>d1\<close>, \<open>f1\<close> whose link element is not found, and \<open>e1\<close>.
\<close>

definition trackedWorld :: world where
  "trackedWorld = \<lparr>storage = Some [''d1''], swExported = [''d1''], sinkCalls = [], downloads = [],
                    container = Some \<lparr>scrollTop = 0, scrolled = 0\<rparr>\<rparr>"


definition mixedRun :: run_env where
  "mixedRun = \<lparr>sidebar = steadySidebar,
                anchors = [(''/c/d1'', ''Old''), (''/c/f1'', ''Gone''), (''/c/e1'', ''New'')],
                item = (\<lambda>k. if k = 1 then (loadedItem ''f1'' (Delivered (Started 1)) [])\<lparr>linkElement := NotFound\<rparr>
                            else loadedItem ''e1'' (Delivered (Started 2)) [])\<rparr>"

section \<open>Properties of the filename sanitizer\<close>

lemma plain_removeInvalid: "\<forall>c\<in>set s. plainChar c \<Longrightarrow> removeInvalid s = s"
  by (induction s) (auto simp: removeInvalid_def plainChar_def)

lemma plain_replaceSpaces: "\<forall>c\<in>set s. plainChar c \<Longrightarrow> replaceSpaces s = s"
  by (induction s) (auto simp: plainChar_def)

lemma plain_collapseUnderscores: "\<forall>c\<in>set s. plainChar c \<Longrightarrow> collapseUnderscores s = s"
  by (induction s) (auto simp: plainChar_def)

lemma plain_trimUnderscores: "\<forall>c\<in>set s. plainChar c \<Longrightarrow> trimUnderscores s = s"
proof -
  assume a: "\<forall>c\<in>set s. plainChar c"
  have "s \<noteq> [] \<Longrightarrow> hd s \<noteq> CHR ''_'' \<and> last s \<noteq> CHR ''_''"
    using a by (auto simp: plainChar_def)
  then show ?thesis
    by (cases s) (auto simp: trimUnderscores_def)
qed

lemma sanitize_plain:
  "\<forall>c\<in>set t. plainChar c \<Longrightarrow> t \<noteq> [] \<Longrightarrow> sanitizeFilename t = take 100 t"
  by (simp add: sanitizeFilename_def plain_removeInvalid plain_replaceSpaces
      plain_collapseUnderscores plain_trimUnderscores)

lemma sanitize_spaces: "0 < n \<Longrightarrow> sanitizeFilename (replicate n CHR '' '') = ''untitled''"
proof -
  assume "0 < n"
  then obtain m where n: "n = Suc m" by (cases n) auto
  have sp: "isWhiteSpace CHR '' ''" by (simp add: isWhiteSpace_def)
  have "removeInvalid (replicate n CHR '' '') = replicate n CHR '' ''"
    by (simp add: removeInvalid_def isInvalidChar_def)
  moreover have "replaceSpaces (replicate n CHR '' '') = ''_''"
    using sp by (simp add: n dropWhile_replicate)
  ultimately show ?thesis
    by (simp add: sanitizeFilename_def trimUnderscores_def n)
qed

text \<open>
  The replacements of the sanitizer, taken together, cut the string into its words and
  join them by single underscores.
\<close>

lemma dropWhile_dropWhile_weaker:
  "(\<And>x. P x \<Longrightarrow> Q x) \<Longrightarrow> dropWhile Q (dropWhile P xs) = dropWhile Q xs"
  by (induction xs) auto

lemma dropWhile_replaceSpaces:
  "dropWhile (\<lambda>d. d = CHR ''_'') (replaceSpaces y) = replaceSpaces (dropWhile isSeparator y)"
proof (induction y rule: replaceSpaces.induct)
  case 1
  show ?case by simp
next
  case (2 c cs)
  show ?case
  proof (cases "isWhiteSpace c")
    case True
    have "dropWhile isSeparator (dropWhile isWhiteSpace cs) = dropWhile isSeparator cs"
      by (rule dropWhile_dropWhile_weaker) (simp add: isSeparator_def)
    moreover have "isSeparator c"
      using True by (simp add: isSeparator_def)
    ultimately show ?thesis
      using 2 True by simp
  next
    case False
    show ?thesis
    proof (cases "c = CHR ''_''")
      case True
      then have "isSeparator c"
        by (simp add: isSeparator_def)
      with 2 False True show ?thesis
        by simp
    next
      case notUnderscore: False
      with False have "\<not> isSeparator c"
        by (simp add: isSeparator_def)
      with False notUnderscore show ?thesis
        by simp
    qed
  qed
qed

lemma normal_separator:
  assumes "isSeparator c"
  shows "collapseUnderscores (replaceSpaces (c # cs)) =
           CHR ''_'' # collapseUnderscores (replaceSpaces (dropWhile isSeparator cs))"
proof (cases "isWhiteSpace c")
  case True
  have "dropWhile isSeparator (dropWhile isWhiteSpace cs) = dropWhile isSeparator cs"
    by (rule dropWhile_dropWhile_weaker) (simp add: isSeparator_def)
  with True show ?thesis
    by (simp add: dropWhile_replaceSpaces)
next
  case False
  with assms have "c = CHR ''_''"
    by (simp add: isSeparator_def)
  with False show ?thesis
    by (simp add: dropWhile_replaceSpaces)
qed

lemma normal_plain:
  "\<not> isSeparator c \<Longrightarrow>
   collapseUnderscores (replaceSpaces (c # cs)) = c # collapseUnderscores (replaceSpaces cs)"
  by (simp add: isSeparator_def)

lemma normal_word:
  "\<forall>c\<in>set w. \<not> isSeparator c \<Longrightarrow>
   collapseUnderscores (replaceSpaces (w @ r)) = w @ collapseUnderscores (replaceSpaces r)"
proof (induction w)
  case Nil
  show ?case by simp
next
  case (Cons c w)
  then have "collapseUnderscores (replaceSpaces (c # (w @ r))) = c # collapseUnderscores (replaceSpaces (w @ r))"
    by (intro normal_plain) simp
  with Cons show ?case by simp
qed

lemma splitWhere_not_Nil: "splitWhere P s \<noteq> []"
  by (induction s) (auto split: list.splits)

lemma splitWhere_run:
  "splitWhere P cs =
     takeWhile (\<lambda>c. \<not> P c) cs # (case dropWhile (\<lambda>c. \<not> P c) cs of [] \<Rightarrow> [] | d # ds \<Rightarrow> splitWhere P ds)"
  by (induction cs) simp_all

lemma wordsOf_Nil: "wordsOf [] = []"
  by (simp add: wordsOf_def)

lemma wordsOf_separator: "isSeparator c \<Longrightarrow> wordsOf (c # cs) = wordsOf cs"
  by (simp add: wordsOf_def)

lemma wordsOf_dropWhile: "wordsOf (dropWhile isSeparator cs) = wordsOf cs"
  by (induction cs) (simp_all add: wordsOf_separator)

lemma filter_case_list:
  "filter P (case xs of [] \<Rightarrow> [] | d # ds \<Rightarrow> f ds) = (case xs of [] \<Rightarrow> [] | d # ds \<Rightarrow> filter P (f ds))"
  by (cases xs) simp_all

lemma wordsOf_plain:
  assumes "\<not> isSeparator c"
  shows "wordsOf (c # cs) =
     (c # takeWhile (\<lambda>c. \<not> isSeparator c) cs) # wordsOf (dropWhile (\<lambda>c. \<not> isSeparator c) cs)"
proof -
  let ?r = "dropWhile (\<lambda>c. \<not> isSeparator c) cs"
  have r: "(case ?r of [] \<Rightarrow> [] | d # ds \<Rightarrow> filter (\<lambda>w. w \<noteq> []) (splitWhere isSeparator ds)) = wordsOf ?r"
  proof (cases ?r)
    case Nil
    show ?thesis unfolding Nil by (simp add: wordsOf_Nil)
  next
    case (Cons d ds)
    then have "isSeparator d"
      using hd_dropWhile [of "\<lambda>c. \<not> isSeparator c" cs] by auto
    with Cons show ?thesis
      by (simp add: wordsOf_separator) (simp add: wordsOf_def)
  qed
  have sp: "splitWhere isSeparator (c # cs) =
      (c # takeWhile (\<lambda>c. \<not> isSeparator c) cs) # (case ?r of [] \<Rightarrow> [] | d # ds \<Rightarrow> splitWhere isSeparator ds)"
    using assms by (subst splitWhere_run) simp
  have "wordsOf (c # cs) =
      filter (\<lambda>w. w \<noteq> []) ((c # takeWhile (\<lambda>c. \<not> isSeparator c) cs) #
        (case ?r of [] \<Rightarrow> [] | d # ds \<Rightarrow> splitWhere isSeparator ds))"
    unfolding wordsOf_def sp ..
  also have "\<dots> = (c # takeWhile (\<lambda>c. \<not> isSeparator c) cs) #
        filter (\<lambda>w. w \<noteq> []) (case ?r of [] \<Rightarrow> [] | d # ds \<Rightarrow> splitWhere isSeparator ds)"
    by simp
  also have "filter (\<lambda>w. w \<noteq> []) (case ?r of [] \<Rightarrow> [] | d # ds \<Rightarrow> splitWhere isSeparator ds) =
        (case ?r of [] \<Rightarrow> [] | d # ds \<Rightarrow> filter (\<lambda>w. w \<noteq> []) (splitWhere isSeparator ds))"
    by (rule filter_case_list)
  finally show ?thesis
    using r by simp
qed

lemma wordsOf_empty: "wordsOf s = [] \<Longrightarrow> c \<in> set s \<Longrightarrow> isSeparator c"
proof (induction s)
  case Nil
  then show ?case by simp
next
  case (Cons d s)
  show ?case
  proof (cases "isSeparator d")
    case True
    with Cons show ?thesis by (auto simp: wordsOf_separator)
  next
    case False
    with Cons.prems show ?thesis by (simp add: wordsOf_plain)
  qed
qed

lemma wordsOf_chars: "w \<in> set (wordsOf s) \<Longrightarrow> w \<noteq> [] \<and> (\<forall>c\<in>set w. \<not> isSeparator c)"
proof (induction "length s" arbitrary: s rule: less_induct)
  case less
  show ?case
  proof (cases s)
    case Nil
    with less.prems show ?thesis by (simp add: wordsOf_Nil)
  next
    case (Cons d ds)
    show ?thesis
    proof (cases "isSeparator d")
      case True
      with less.prems Cons have "w \<in> set (wordsOf ds)"
        by (simp add: wordsOf_separator)
      with less.hyps [of ds] Cons show ?thesis by simp
    next
      case False
      let ?r = "dropWhile (\<lambda>c. \<not> isSeparator c) ds"
      have len: "length ?r < length s"
        using Cons by (simp add: length_dropWhile_le less_Suc_eq_le)
      from False Cons less.prems
      have "w = d # takeWhile (\<lambda>c. \<not> isSeparator c) ds \<or> w \<in> set (wordsOf ?r)"
        by (simp add: wordsOf_plain)
      then show ?thesis
      proof
        assume "w = d # takeWhile (\<lambda>c. \<not> isSeparator c) ds"
        with False show ?thesis
          by (auto dest: set_takeWhileD)
      next
        assume "w \<in> set (wordsOf ?r)"
        with less.hyps [OF len] show ?thesis by simp
      qed
    qed
  qed
qed

lemma join_Cons: "join sep (x # xs) = x @ (if xs = [] then [] else sep @ join sep xs)"
  by (cases xs) simp_all

lemma join_ends:
  assumes "ws \<noteq> []" and "\<forall>w\<in>set ws. w \<noteq> []"
  shows "join sep ws \<noteq> [] \<and> hd (join sep ws) = hd (hd ws) \<and> last (join sep ws) = last (last ws)"
  using assms
proof (induction ws)
  case Nil
  then show ?case by simp
next
  case (Cons w ws)
  show ?case
  proof (cases "ws = []")
    case True
    with Cons.prems show ?thesis by simp
  next
    case False
    with Cons have "join sep ws \<noteq> [] \<and> last (join sep ws) = last (last ws)"
      by simp
    with Cons.prems False show ?thesis
      by (simp add: join_Cons)
  qed
qed

lemma joined_ends:
  assumes "wordsOf s \<noteq> []"
  shows "join ''_'' (wordsOf s) \<noteq> [] \<and> hd (join ''_'' (wordsOf s)) \<noteq> CHR ''_'' \<and>
         last (join ''_'' (wordsOf s)) \<noteq> CHR ''_''"
proof -
  have ne: "\<forall>w\<in>set (wordsOf s). w \<noteq> []"
    using wordsOf_chars by blast
  have h: "hd (wordsOf s) \<in> set (wordsOf s)" and l: "last (wordsOf s) \<in> set (wordsOf s)"
    using assms by simp_all
  have "hd (hd (wordsOf s)) \<in> set (hd (wordsOf s))" "last (last (wordsOf s)) \<in> set (last (wordsOf s))"
    using wordsOf_chars [OF h] wordsOf_chars [OF l] by simp_all
  then have "\<not> isSeparator (hd (hd (wordsOf s)))" "\<not> isSeparator (last (last (wordsOf s)))"
    using wordsOf_chars [OF h] wordsOf_chars [OF l] by blast+
  then have "hd (hd (wordsOf s)) \<noteq> CHR ''_''" "last (last (wordsOf s)) \<noteq> CHR ''_''"
    by (auto simp: isSeparator_def)
  with join_ends [OF assms ne, of "''_''"] show ?thesis by simp
qed

lemma last_dropWhile: "dropWhile P xs \<noteq> [] \<Longrightarrow> last (dropWhile P xs) = last xs"
  by (induction xs) (auto split: if_splits)

lemma normal_shape:
  "collapseUnderscores (replaceSpaces s) =
     (if s \<noteq> [] \<and> isSeparator (hd s) then ''_'' else []) @ join ''_'' (wordsOf s) @
     (if wordsOf s \<noteq> [] \<and> isSeparator (last s) then ''_'' else [])"
proof (induction "length s" arbitrary: s rule: less_induct)
  case less
  show ?case
  proof (cases s)
    case Nil
    then show ?thesis by (simp add: wordsOf_Nil)
  next
    case (Cons c cs)
    show ?thesis
    proof (cases "isSeparator c")
      case True
      let ?d = "dropWhile isSeparator cs"
      have len: "length ?d < length s"
        using Cons by (simp add: length_dropWhile_le less_Suc_eq_le)
      have lead: "\<not> (?d \<noteq> [] \<and> isSeparator (hd ?d))"
        using hd_dropWhile [of isSeparator cs] by auto
      have w: "wordsOf s = wordsOf ?d"
        using True Cons by (simp add: wordsOf_separator wordsOf_dropWhile)
      have t: "(wordsOf ?d \<noteq> [] \<and> isSeparator (last ?d)) = (wordsOf s \<noteq> [] \<and> isSeparator (last s))"
      proof (cases "?d = []")
        case True
        have "wordsOf s = []"
          using w unfolding True by (simp add: wordsOf_Nil)
        with w show ?thesis by simp
      next
        case False
        then have "last ?d = last cs" "cs \<noteq> []"
          by (auto simp: last_dropWhile)
        with Cons w show ?thesis by simp
      qed
      have "collapseUnderscores (replaceSpaces s) = CHR ''_'' # collapseUnderscores (replaceSpaces ?d)"
        using True Cons by (simp only: normal_separator)
      also have "collapseUnderscores (replaceSpaces ?d) =
          join ''_'' (wordsOf ?d) @ (if wordsOf ?d \<noteq> [] \<and> isSeparator (last ?d) then ''_'' else [])"
        using less.hyps [OF len] lead by simp
      finally show ?thesis
        using True Cons w t by simp
    next
      case False
      let ?w = "c # takeWhile (\<lambda>c. \<not> isSeparator c) cs"
      let ?r = "dropWhile (\<lambda>c. \<not> isSeparator c) cs"
      have len: "length ?r < length s"
        using Cons by (simp add: length_dropWhile_le less_Suc_eq_le)
      have s: "s = ?w @ ?r"
        using Cons by simp
      have pw: "\<forall>c\<in>set ?w. \<not> isSeparator c"
        using False by (auto dest: set_takeWhileD)
      have n: "collapseUnderscores (replaceSpaces s) = ?w @ collapseUnderscores (replaceSpaces ?r)"
        using normal_word [OF pw, of ?r] s by simp
      have ih: "collapseUnderscores (replaceSpaces ?r) =
          (if ?r \<noteq> [] \<and> isSeparator (hd ?r) then ''_'' else []) @ join ''_'' (wordsOf ?r) @
          (if wordsOf ?r \<noteq> [] \<and> isSeparator (last ?r) then ''_'' else [])"
        using less.hyps [OF len] .
      have w: "wordsOf s = ?w # wordsOf ?r"
        using False Cons by (simp add: wordsOf_plain)
      show ?thesis
      proof (cases "?r = []")
        case True
        then have "last s = last ?w"
          using s by (metis append_Nil2)
        moreover have "last ?w \<in> set ?w"
          by (rule last_in_set) simp
        ultimately have "\<not> isSeparator (last s)"
          using pw by metis
        with n ih w True False Cons show ?thesis
          by (simp add: wordsOf_Nil)
      next
        case r: False
        then have hd: "isSeparator (hd ?r)"
          using hd_dropWhile [of "\<lambda>c. \<not> isSeparator c" cs] by auto
        have l: "last s = last ?r"
          using r s by (metis last_appendR)
        show ?thesis
        proof (cases "wordsOf ?r = []")
          case True
          have "last ?r \<in> set ?r"
            using r by (rule last_in_set)
          then have "isSeparator (last ?r)"
            using wordsOf_empty [OF True] by blast
          with n ih w True r hd l False Cons show ?thesis
            by simp
        next
          case False
          with n ih w r hd l \<open>\<not> isSeparator c\<close> Cons show ?thesis
            by (simp add: join_Cons)
        qed
      qed
    qed
  qed
qed

lemma trim_joined:
  "trimUnderscores (collapseUnderscores (replaceSpaces s)) = join ''_'' (wordsOf s)"
proof (cases "wordsOf s = []")
  case True
  then show ?thesis
    by (simp add: normal_shape trimUnderscores_def)
next
  case False
  let ?j = "join ''_'' (wordsOf s)"
  from joined_ends [OF False] have j: "?j \<noteq> []" "hd ?j \<noteq> CHR ''_''" "last ?j \<noteq> CHR ''_''"
    by simp_all
  then obtain a js where js: "?j = a # js" and a: "a \<noteq> CHR ''_''"
    by (cases ?j) auto
  have t: "trimUnderscores (x @ ?j @ y) = ?j"
    if "x = [] \<or> x = ''_''" "y = [] \<or> y = ''_''" for x y
    using that j js a by (auto simp: trimUnderscores_def butlast_append)
  show ?thesis
    unfolding normal_shape by (rule t) simp_all
qed

lemma removeInvalid_filter: "removeInvalid t = filter (\<lambda>c. c \<notin> set invalidCharacters) t"
  by (simp add: removeInvalid_def isInvalidChar_def invalidCharacters_def)

lemma sanitize_joinedWords:
  "sanitizeFilename t = (if take 100 (joinedWords t) = [] then ''untitled'' else take 100 (joinedWords t))"
proof (cases "t = []")
  case True
  then show ?thesis
    by (simp add: sanitizeFilename_def joinedWords_def wordsOf_Nil)
next
  case False
  then show ?thesis
    by (simp add: sanitizeFilename_def Let_def trim_joined joinedWords_def removeInvalid_filter)
qed

text \<open>
  Claim C4 as stated fails twice. The sanitizer removes \<open>:\<close> and \<open>/\<close> without
  putting an underscore in their place, so \<open>Hello: World/Test\<close> does not become
  \<open>Hello_World_Test\<close>; and a 200-character input is not always cut to 100 characters:
  200 spaces become one underscore, which is trimmed away, and the result is the
  8-character fallback \<open>untitled\<close>.
\<close>

theorem C4_counterexample:
  "sanitizeFilename ''Hello: World/Test'' \<noteq> ''Hello_World_Test'' \<and>
   length (sanitizeFilename (replicate 200 CHR '' '')) \<noteq> 100"
proof
  show "sanitizeFilename ''Hello: World/Test'' \<noteq> ''Hello_World_Test''"
    by (simp add: sanitizeFilename_def removeInvalid_def isInvalidChar_def isWhiteSpace_def trimUnderscores_def)
  show "length (sanitizeFilename (replicate 200 CHR '' '')) \<noteq> 100"
    by (simp add: sanitize_spaces)
qed

text \<open>
  Claim C4, amended. The sanitizer maps \<open>Hello: World/Test\<close> to \<open>Hello_WorldTest\<close>
  and the empty input to \<open>untitled\<close>. It removes the characters \<open>< > : " / \ | ? *\<close>
  (\<open>a/b\<close> becomes \<open>ab\<close>), turns a run of white space into one underscore, a run of
  underscores into one, and trims an underscore at the start and at the end. For every
  input the result is the first 100 characters of the words of the input, joined by
  single underscores, where the words are what lies between the runs of white space and
  underscores once the nine characters are removed; and it is \<open>untitled\<close> when there
  are no words. So the result has at most 100 characters for every input, and exactly
  100 when the joined words have 100 or more: 200 letters are cut to 100, and 200
  spaces give \<open>untitled\<close>.
\<close>

theorem C4_sanitizeFilename:
  "sanitizeFilename ''Hello: World/Test'' = ''Hello_WorldTest'' \<and>
   sanitizeFilename [] = ''untitled'' \<and>
   sanitizeFilename ''a/b'' = ''ab'' \<and>
   sanitizeFilename ''My   chat'' = ''My_chat'' \<and>
   sanitizeFilename ''a___b'' = ''a_b'' \<and>
   sanitizeFilename ''_notes_'' = ''notes'' \<and>
   sanitizeFilename (replicate 200 CHR '' '') = ''untitled'' \<and>
   sanitizeFilename (replicate 200 CHR ''a'') = replicate 100 CHR ''a'' \<and>
   sanitizeFilename t = (if take 100 (joinedWords t) = [] then ''untitled'' else take 100 (joinedWords t)) \<and>
   length (sanitizeFilename t) = (if joinedWords t = [] then 8 else min 100 (length (joinedWords t)))"
proof (intro conjI)
  show "sanitizeFilename ''Hello: World/Test'' = ''Hello_WorldTest''"
    by (simp add: sanitizeFilename_def removeInvalid_def isInvalidChar_def isWhiteSpace_def trimUnderscores_def)
  show "sanitizeFilename [] = ''untitled''"
    by (simp add: sanitizeFilename_def)
  show "sanitizeFilename ''a/b'' = ''ab''"
    by (simp add: sanitizeFilename_def removeInvalid_def isInvalidChar_def isWhiteSpace_def trimUnderscores_def)
  show "sanitizeFilename ''My   chat'' = ''My_chat''"
    by (simp add: sanitizeFilename_def removeInvalid_def isInvalidChar_def isWhiteSpace_def trimUnderscores_def)
  show "sanitizeFilename ''a___b'' = ''a_b''"
    by (simp add: sanitizeFilename_def removeInvalid_def isInvalidChar_def isWhiteSpace_def trimUnderscores_def)
  show "sanitizeFilename ''_notes_'' = ''notes''"
    by (simp add: sanitizeFilename_def removeInvalid_def isInvalidChar_def isWhiteSpace_def trimUnderscores_def)
  show "sanitizeFilename (replicate 200 CHR '' '') = ''untitled''"
    by (simp add: sanitize_spaces)
  show "sanitizeFilename (replicate 200 CHR ''a'') = replicate 100 CHR ''a''"
  proof -
    have "\<forall>c\<in>set (replicate 200 CHR ''a''). plainChar c"
      by (simp add: plainChar_def isInvalidChar_def isWhiteSpace_def)
    then have "sanitizeFilename (replicate 200 CHR ''a'') = take 100 (replicate 200 CHR ''a'')"
      by (rule sanitize_plain) simp
    then show ?thesis by simp
  qed
  show eq: "sanitizeFilename t = (if take 100 (joinedWords t) = [] then ''untitled'' else take 100 (joinedWords t))"
    by (rule sanitize_joinedWords)
  show "length (sanitizeFilename t) = (if joinedWords t = [] then 8 else min 100 (length (joinedWords t)))"
    unfolding eq by (simp add: min.commute)
qed

text \<open>
  An instance of C4: a title with white space at both ends, removed characters, and an
  underscore of its own.
\<close>

theorem C4_witness:
  "joinedWords ''  Q&A: notes / draft_2  '' = ''Q&A_notes_draft_2'' \<and>
   sanitizeFilename ''  Q&A: notes / draft_2  '' = ''Q&A_notes_draft_2''"
proof -
  have j: "joinedWords ''  Q&A: notes / draft_2  '' = ''Q&A_notes_draft_2''"
    by (simp add: joinedWords_def wordsOf_def invalidCharacters_def isSeparator_def isWhiteSpace_def)
  with C4_sanitizeFilename [of "''  Q&A: notes / draft_2  ''"] show ?thesis
    by simp
qed

section \<open>Properties of the document formatter\<close>

text \<open>
  Claim C1 as stated fails: for the scenario's conversation the formatter does not
  return the document of the claim, which has one empty line between the title and the
  rule.
\<close>

theorem C1_counterexample:
  "formatConversation greeting \<noteq>
     ''# Greeting\<newline>\<newline>---\<newline>\<newline>## User\<newline>\<newline>Hi\<newline>\<newline>---\<newline>\<newline>## Assistant\<newline>\<newline>Hello\<newline>\<newline>---\<newline>''"
  by (simp add: greeting_def formatConversation_def headerLines_def messageLines_def trim_def
      isWhiteSpace_def truthy_def orElse_def)

text \<open>
  Claim C1, amended. The formatter pushes an empty line after the title and another one
  after the (absent) metadata, so for title \<open>Greeting\<close>, no date, no url and the messages
  (user, \<open>Hi\<close>) and (assistant, \<open>Hello\<close>) the document has two empty lines between
  the title and the rule; the rest is as the claim gives it, ending in one newline.
\<close>

theorem C1_formatConversation:
  "formatConversation greeting =
     ''# Greeting\<newline>\<newline>\<newline>---\<newline>\<newline>## User\<newline>\<newline>Hi\<newline>\<newline>---\<newline>\<newline>## Assistant\<newline>\<newline>Hello\<newline>\<newline>---\<newline>''"
  by (simp add: greeting_def formatConversation_def headerLines_def messageLines_def trim_def
      isWhiteSpace_def truthy_def orElse_def)

text \<open>
  Claim C10. The document is the header followed, for each message in order, by its
  heading, an empty line, its content, an empty line, a rule and an empty line; the
  heading is \<open>## User\<close> exactly when the role is the string \<open>user\<close>, and
  \<open>## Assistant\<close> for every other role, \<open>assistant\<close> or not.
\<close>

theorem C10_heading:
  "formatConversation c =
     trim (join ''\<newline>'' (headerLines c @
       concat (map (\<lambda>m. [if role m = ''user'' then ''## User'' else ''## Assistant'',
                           '''', content m, '''', ''---'', ''''])
                 (conv_messages c)))) @ ''\<newline>''"
proof -
  have "messageLines = (\<lambda>m. [if role m = ''user'' then ''## User'' else ''## Assistant'',
                           '''', content m, '''', ''---'', ''''])"
    by (rule ext) (simp add: messageLines_def)
  then show ?thesis
    by (simp add: formatConversation_def)
qed

text \<open>
  An instance of C10: one message whose role is \<open>system\<close> is rendered under the heading
  \<open>## Assistant\<close>.
\<close>

theorem C10_witness:
  "formatConversation \<lparr>conv_id = None, conv_title = Some ''T'', conv_date = None, conv_url = None,
      conv_messages = [\<lparr>role = ''system'', content = ''x''\<rparr>]\<rparr> =
   ''# T\<newline>\<newline>\<newline>---\<newline>\<newline>## Assistant\<newline>\<newline>x\<newline>\<newline>---\<newline>''"
  unfolding C10_heading
  by (simp add: headerLines_def trim_def isWhiteSpace_def truthy_def orElse_def)

section \<open>Properties of the Markdown transducer\<close>






lemma rows_after_first:
  "those (map (\<lambda>(rowIndex, r). map_option (\<lambda>l. l # (if rowIndex = 0 then [h r] else [])) (g r))
            (enumerate (Suc n) rs)) =
   map_option (map (\<lambda>l. [l])) (those (map g rs))"
  by (induction rs arbitrary: n) (simp_all add: option.map_comp comp_def split: option.splits)

lemma processTable_rows:
  "processTable anc t =
     (if querySelectorAll (hasTag ''tr'') anc t = [] then Some []
      else map_option (\<lambda>result. join ''\<newline>'' (concat result))
             (those (map (\<lambda>(rowIndex, r).
                       map_option (\<lambda>l. l # (if rowIndex = 0 then [separatorRow r] else [])) (tableRow r))
                     (enumerate 0 (querySelectorAll (hasTag ''tr'') anc t)))))"
proof -
  have h: "(\<lambda>(rowIndex, (ranc, row)).
            map_option (\<lambda>cellContents.
                (''| '' @ join '' | '' cellContents @ '' |'') #
                (if rowIndex = 0
                 then [''| '' @ join '' | ''
                         (map (\<lambda>c. ''---'') (querySelectorAll (\<lambda>n. hasTag ''th'' n \<or> hasTag ''td'' n) ranc row)) @ '' |'']
                 else []))
              (those (map (\<lambda>(canc, cell). map_option (\<lambda>content. escapePipes (trim content)) (processNode canc cell))
                        (querySelectorAll (\<lambda>n. hasTag ''th'' n \<or> hasTag ''td'' n) ranc row))))
      = (\<lambda>(rowIndex, r). map_option (\<lambda>l. l # (if rowIndex = 0 then [separatorRow r] else [])) (tableRow r))"
    by (auto simp: fun_eq_iff tableRow_def separatorRow_def tableCells_def map_replicate_const
        option.map_comp comp_def)
  show ?thesis
    by (simp only: processTable.simps h)
qed

lemma processTable_first_row:
  "processTable anc t =
     (case querySelectorAll (hasTag ''tr'') anc t of
        [] \<Rightarrow> Some []
      | r # rs \<Rightarrow>
          (case (tableRow r, those (map tableRow rs)) of
             (Some l, Some ls) \<Rightarrow> Some (join ''\<newline>'' (l # separatorRow r # ls))
           | _ \<Rightarrow> None))"
proof (cases "querySelectorAll (hasTag ''tr'') anc t")
  case Nil
  then show ?thesis by (simp only: processTable_rows) simp
next
  case (Cons r rs)
  have c: "concat (map (\<lambda>l. [l]) ls) = ls" for ls :: "string list"
    by (induction ls) simp_all
  have "map_option (\<lambda>result. join ''\<newline>'' (concat result))
          (those (map (\<lambda>(rowIndex, r).
                       map_option (\<lambda>l. l # (if rowIndex = 0 then [separatorRow r] else [])) (tableRow r))
                     (enumerate 0 (r # rs)))) =
        (case (tableRow r, those (map tableRow rs)) of
             (Some l, Some ls) \<Rightarrow> Some (join ''\<newline>'' (l # separatorRow r # ls))
           | _ \<Rightarrow> None)"
    by (simp add: rows_after_first c split: option.splits)
  with Cons show ?thesis by (simp only: processTable_rows) simp
qed














lemma table2x2_out: "processTable anc table2x2 = Some ''| H1 | H2 |\<newline>| --- | --- |\<newline>| a | b |''"
  by (simp add: table2x2_def querySelectorAll_def hasTag_def enumerate_eq_zip escapePipes_def
      trim_def isWhiteSpace_def upt_rec)

lemma pipe_cell:
  "processTable anc (ElementNode Html ''table'' [] [ElementNode Html ''tr'' [] [ElementNode Html ''td'' [] [TextNode ''a|b'']]])
     = Some (''| a'' @ [CHR 0x5C] @ ''|b |\<newline>| --- |'')"
  by (simp add: querySelectorAll_def hasTag_def enumerate_eq_zip escapePipes_def
      trim_def isWhiteSpace_def upt_rec)



text \<open>
  Claim C5 as stated fails. The \<open>code\<close> element of a code block that ChatGPT renders as
  \<open>pre > div > code\<close> is inside the \<open>pre\<close> container, but its parent is the \<open>div\<close>:
  \<open>processNode\<close> wraps its output in backticks.
\<close>

theorem C5_counterexample:
  "hasTag ''pre'' codeBlock \<and>
   ([codeWrapper, codeBlock], nestedCode) \<in> set (descendants [] codeBlock) \<and>
   processNode [codeWrapper, codeBlock] nestedCode = Some ''`x = 1`''"
  by (simp add: codeBlock_def codeWrapper_def nestedCode_def hasTag_def parentIsPre_def)

text \<open>
  Claim C5, amended. For every element with the tag \<open>code\<close>, whatever its namespace,
  attributes, children and position: when its parent element is a \<open>pre\<close> element,
  \<open>processNode\<close> returns its inner text, the concatenation of its converted children,
  with no backtick around it; in every other case (another parent, also one that lies
  inside a \<open>pre\<close> element, or no parent) it returns that inner text between two single
  backticks. When the conversion of a child throws, so does the conversion of the
  element.
\<close>

theorem C5_inline_code:
  "processNode anc (ElementNode ns ''code'' as kids) =
     map_option (\<lambda>inner. if parentIsPre anc then inner else ''`'' @ inner @ ''`'')
       (map_option concat (those (map (processNode (ElementNode ns ''code'' as kids # anc)) kids))) \<and>
   parentIsPre anc = (anc \<noteq> [] \<and> tagName (hd anc) = ''pre'')"
proof
  show "processNode anc (ElementNode ns ''code'' as kids) =
     map_option (\<lambda>inner. if parentIsPre anc then inner else ''`'' @ inner @ ''`'')
       (map_option concat (those (map (processNode (ElementNode ns ''code'' as kids # anc)) kids)))"
    by (simp add: Let_def split: option.splits)
  show "parentIsPre anc = (anc \<noteq> [] \<and> tagName (hd anc) = ''pre'')"
    by (cases anc) (simp_all add: parentIsPre_def)
qed

text \<open>
  Instances of C5: the same \<open>code\<close> element under a \<open>pre\<close> parent, under a \<open>p\<close>
  parent, under a \<open>div\<close> parent inside a \<open>pre\<close> element, and without a parent.
\<close>

theorem C5_witness:
  "processNode [ElementNode Html ''pre'' [] [ElementNode Html ''code'' [] [TextNode ''x = 1'']]]
     (ElementNode Html ''code'' [] [TextNode ''x = 1'']) = Some ''x = 1'' \<and>
   processNode [ElementNode Html ''p'' [] [ElementNode Html ''code'' [] [TextNode ''x = 1'']]]
     (ElementNode Html ''code'' [] [TextNode ''x = 1'']) = Some ''`x = 1`'' \<and>
   processNode [ElementNode Html ''div'' [] [ElementNode Html ''code'' [] [TextNode ''x = 1'']],
                ElementNode Html ''pre'' [] [ElementNode Html ''div'' [] [ElementNode Html ''code'' [] [TextNode ''x = 1'']]]]
     (ElementNode Html ''code'' [] [TextNode ''x = 1'']) = Some ''`x = 1`'' \<and>
   processNode [] (ElementNode Html ''code'' [] [TextNode ''x = 1'']) = Some ''`x = 1`''"
  using C5_inline_code [of "[ElementNode Html ''pre'' [] [ElementNode Html ''code'' [] [TextNode ''x = 1'']]]" Html "[]" "[TextNode ''x = 1'']"]
    C5_inline_code [of "[ElementNode Html ''p'' [] [ElementNode Html ''code'' [] [TextNode ''x = 1'']]]" Html "[]" "[TextNode ''x = 1'']"]
    C5_inline_code [of "[ElementNode Html ''div'' [] [ElementNode Html ''code'' [] [TextNode ''x = 1'']],
                ElementNode Html ''pre'' [] [ElementNode Html ''div'' [] [ElementNode Html ''code'' [] [TextNode ''x = 1'']]]]" Html "[]" "[TextNode ''x = 1'']"]
    C5_inline_code [of "[]" Html "[]" "[TextNode ''x = 1'']"]
  by simp

text \<open>
  Claim C6. The table with the header row H1, H2 and the data row a, b gives the three
  lines of the claim; a cell \<open>a|b\<close> is printed as \<open>a\|b\<close>; and for every table, a table
  without rows gives the empty string, and otherwise the result is the line of the first
  row, one separator line with as many \<open>---\<close> as the first row has cells, and the lines
  of the other rows with no separator after them, joined by newlines (unless the
  conversion of a cell throws, and the table formatter with it).
\<close>

theorem C6_table:
  "processTable anc table2x2 = Some ''| H1 | H2 |\<newline>| --- | --- |\<newline>| a | b |'' \<and>
   processTable anc (ElementNode Html ''table'' [] [ElementNode Html ''tr'' [] [ElementNode Html ''td'' [] [TextNode ''a|b'']]])
     = Some (''| a'' @ [CHR 0x5C] @ ''|b |\<newline>| --- |'') \<and>
   processTable anc t =
     (case querySelectorAll (hasTag ''tr'') anc t of
        [] \<Rightarrow> Some []
      | r # rs \<Rightarrow>
          (case (tableRow r, those (map tableRow rs)) of
             (Some l, Some ls) \<Rightarrow> Some (join ''\<newline>'' (l # separatorRow r # ls))
           | _ \<Rightarrow> None))"
  using table2x2_out pipe_cell processTable_first_row by blast

text \<open>
  Instances of C6: a table without rows, and a table of three rows, which has its only
  separator after the first row.
\<close>

theorem C6_witness:
  "processTable [] (ElementNode Html ''table'' [] []) = Some [] \<and>
   processTable [] (ElementNode Html ''table'' [] [ElementNode Html ''tr'' [] [ElementNode Html ''td'' [] [TextNode ''x'']],
      ElementNode Html ''tr'' [] [ElementNode Html ''td'' [] [TextNode ''y'']], ElementNode Html ''tr'' [] [ElementNode Html ''td'' [] [TextNode ''z'']]])
     = Some ''| x |\<newline>| --- |\<newline>| y |\<newline>| z |''"
  using C6_table [of "[]" "ElementNode Html ''table'' [] []"]
    C6_table [of "[]" "ElementNode Html ''table'' [] [ElementNode Html ''tr'' [] [ElementNode Html ''td'' [] [TextNode ''x'']],
      ElementNode Html ''tr'' [] [ElementNode Html ''td'' [] [TextNode ''y'']], ElementNode Html ''tr'' [] [ElementNode Html ''td'' [] [TextNode ''z'']]]"]
  by (simp add: querySelectorAll_def hasTag_def tableRow_def separatorRow_def tableCells_def
      escapePipes_def trim_def isWhiteSpace_def)




section \<open>Properties of the sidebar list loader\<close>

lemma scrollLoop_exit: "\<not> a < 50 \<Longrightarrow> scrollLoop env a cur c sc = (cur, sc)"
  by (subst scrollLoop.simps) simp

lemma scrollLoop_break:
  "a < 50 \<Longrightarrow> linkCount env (a + 1) = cur \<Longrightarrow> 2 \<le> c \<Longrightarrow>
   scrollLoop env a cur c sc = (cur, sc\<lparr>scrollTop := scrollHeight env (a + 1), scrolled := scrolled sc + 1\<rparr>)"
  by (subst scrollLoop.simps) (simp add: Let_def)

lemma scrollLoop_same:
  "a < 50 \<Longrightarrow> linkCount env (a + 1) = cur \<Longrightarrow> c < 2 \<Longrightarrow>
   scrollLoop env a cur c sc =
   scrollLoop env (a + 1) cur (c + 1) (sc\<lparr>scrollTop := scrollHeight env (a + 1), scrolled := scrolled sc + 1\<rparr>)"
  by (subst scrollLoop.simps) (simp add: Let_def)

lemma scrollLoop_changed:
  "a < 50 \<Longrightarrow> linkCount env (a + 1) \<noteq> cur \<Longrightarrow>
   scrollLoop env a cur c sc =
   scrollLoop env (a + 1) (linkCount env (a + 1)) 0
     (sc\<lparr>scrollTop := scrollHeight env (a + 1), scrolled := scrolled sc + 1\<rparr>)"
  by (subst scrollLoop.simps) (simp add: Let_def)

lemma scrollLoop_cases [consumes 0, case_names exit break same changed]:
  assumes "\<not> a < 50 \<Longrightarrow> P"
    and "a < 50 \<Longrightarrow> linkCount env (a + 1) = cur \<Longrightarrow> 2 \<le> (c::nat) \<Longrightarrow> P"
    and "a < 50 \<Longrightarrow> linkCount env (a + 1) = cur \<Longrightarrow> c < 2 \<Longrightarrow> P"
    and "a < 50 \<Longrightarrow> linkCount env (a + 1) \<noteq> cur \<Longrightarrow> P"
  shows P
  using assms by (cases "a < 50"; cases "linkCount env (a + 1) = cur"; cases "2 \<le> c") auto

text \<open>Every turn of the loop scrolls once, and there are at most \<open>50 - attempts\<close> turns.\<close>

lemma scrollLoop_scrolled_upper:
  "scrolled (snd (scrollLoop env a cur c sc)) \<le> scrolled sc + (50 - a)"
proof (induction "50 - a" arbitrary: a cur c sc)
  case 0
  then show ?case by (simp add: scrollLoop_exit)
next
  case (Suc m)
  let ?sc1 = "sc\<lparr>scrollTop := scrollHeight env (a + 1), scrolled := scrolled sc + 1\<rparr>"
  from Suc.hyps have a: "a < 50" and m: "m = 50 - (a + 1)" by simp_all
  show ?case
  proof (cases rule: scrollLoop_cases [where a = a and env = env and cur = cur and c = c])
    case exit
    with a show ?thesis by simp
  next
    case break
    with a show ?thesis
      by (simp add: scrollLoop_break)
  next
    case same
    with Suc.hyps(1) [OF m, of cur "c + 1" ?sc1] a show ?thesis
      by (simp add: scrollLoop_same)
  next
    case changed
    with Suc.hyps(1) [OF m, of "linkCount env (a + 1)" 0 ?sc1] a show ?thesis
      by (simp add: scrollLoop_changed)
  qed
qed

text \<open>The loop is left early only after three iterations in a row that left the count unchanged.\<close>

lemma scrollLoop_early:
  assumes "scrolled sc = a" and "cur = linkCount env a"
    and "1 \<le> c \<longrightarrow> 1 \<le> a \<and> unchangedAt env a"
    and "2 \<le> c \<longrightarrow> 2 \<le> a \<and> unchangedAt env (a - 1)"
    and "n = scrolled (snd (scrollLoop env a cur c sc))"
    and "n < 50"
  shows "3 \<le> n \<and> unchangedAt env n \<and> unchangedAt env (n - 1) \<and> unchangedAt env (n - 2)"
  using assms
proof (induction "50 - a" arbitrary: a cur c sc)
  case 0
  then have "\<not> a < 50" by simp
  with 0 show ?case by (simp add: scrollLoop_exit)
next
  case (Suc m)
  let ?sc1 = "sc\<lparr>scrollTop := scrollHeight env (a + 1), scrolled := scrolled sc + 1\<rparr>"
  from Suc.hyps have a: "a < 50" and m: "m = 50 - (a + 1)" by simp_all
  show ?case
  proof (cases rule: scrollLoop_cases [where a = a and env = env and cur = cur and c = c])
    case exit
    with a show ?thesis by simp
  next
    case break
    then have n: "n = a + 1"
      using Suc.prems by (simp add: scrollLoop_break)
    have "unchangedAt env (a + 1)"
      using break Suc.prems by (simp add: unchangedAt_def)
    moreover from break Suc.prems have "2 \<le> a" "unchangedAt env a" "unchangedAt env (a - 1)"
      by simp_all
    moreover from n have "n - 1 = a" "n - 2 = a - 1"
      by simp_all
    ultimately show ?thesis
      using n by simp
  next
    case same
    have u: "unchangedAt env (a + 1)"
      using same Suc.prems by (simp add: unchangedAt_def)
    have "n = scrolled (snd (scrollLoop env (a + 1) cur (c + 1) ?sc1))"
      using same Suc.prems by (simp add: scrollLoop_same)
    moreover have "cur = linkCount env (a + 1)"
      using same by simp
    moreover have "scrolled ?sc1 = a + 1"
      using Suc.prems by simp
    moreover have "1 \<le> c + 1 \<longrightarrow> 1 \<le> a + 1 \<and> unchangedAt env (a + 1)"
      using u by simp
    moreover have "2 \<le> c + 1 \<longrightarrow> 2 \<le> a + 1 \<and> unchangedAt env (a + 1 - 1)"
      using Suc.prems by auto
    ultimately show ?thesis
      using Suc.hyps(1) [OF m] Suc.prems(6) by blast
  next
    case changed
    have "n = scrolled (snd (scrollLoop env (a + 1) (linkCount env (a + 1)) 0 ?sc1))"
      using changed Suc.prems by (simp add: scrollLoop_changed)
    moreover have "scrolled ?sc1 = a + 1"
      using Suc.prems by simp
    ultimately show ?thesis
      using Suc.hyps(1) [OF m, of ?sc1 "linkCount env (a + 1)" 0] Suc.prems(6) by simp
  qed
qed

text \<open>The loop is left at the latest when three iterations in a row left the count unchanged.\<close>

lemma scrollLoop_stops:
  assumes "scrolled sc = a" and "cur = linkCount env a"
    and "1 \<le> a \<and> unchangedAt env a \<longrightarrow> 1 \<le> c"
    and "2 \<le> a \<and> unchangedAt env a \<and> unchangedAt env (a - 1) \<longrightarrow> 2 \<le> c"
    and "a < k" and "k \<le> 50" and "3 \<le> k"
    and "unchangedAt env k" and "unchangedAt env (k - 1)" and "unchangedAt env (k - 2)"
  shows "scrolled (snd (scrollLoop env a cur c sc)) \<le> k"
  using assms
proof (induction "50 - a" arbitrary: a cur c sc)
  case 0
  then show ?case by simp
next
  case (Suc m)
  let ?sc1 = "sc\<lparr>scrollTop := scrollHeight env (a + 1), scrolled := scrolled sc + 1\<rparr>"
  from Suc.hyps have a: "a < 50" and m: "m = 50 - (a + 1)" by simp_all
  have sc1: "scrolled ?sc1 = a + 1"
    using Suc.prems by simp
  show ?case
  proof (cases rule: scrollLoop_cases [where a = a and env = env and cur = cur and c = c])
    case exit
    with a show ?thesis by simp
  next
    case break
    with Suc.prems show ?thesis
      by (simp add: scrollLoop_break)
  next
    case same
    have u: "unchangedAt env (a + 1)"
      using same Suc.prems by (simp add: unchangedAt_def)
    have "a + 1 \<noteq> k"
    proof
      assume "a + 1 = k"
      then have "k - 1 = a" "k - 2 = a - 1" "2 \<le> a"
        using Suc.prems by simp_all
      with Suc.prems have "2 \<le> c" by simp
      with same show False by simp
    qed
    with Suc.prems have k: "a + 1 < k" by simp
    have c1: "1 \<le> a + 1 \<and> unchangedAt env (a + 1) \<longrightarrow> 1 \<le> c + 1"
      by simp
    have c2: "2 \<le> a + 1 \<and> unchangedAt env (a + 1) \<and> unchangedAt env (a + 1 - 1) \<longrightarrow> 2 \<le> c + 1"
      using Suc.prems by auto
    have "scrolled (snd (scrollLoop env (a + 1) cur (c + 1) ?sc1)) \<le> k"
      using Suc.hyps(1) [OF m sc1 _ c1 c2 k] same Suc.prems by simp
    with same show ?thesis
      by (simp add: scrollLoop_same)
  next
    case changed
    have nu: "\<not> unchangedAt env (a + 1)"
      using changed Suc.prems by (simp add: unchangedAt_def)
    with Suc.prems have "a + 1 \<noteq> k" by auto
    with Suc.prems have k: "a + 1 < k" by simp
    have c1: "1 \<le> a + 1 \<and> unchangedAt env (a + 1) \<longrightarrow> 1 \<le> (0::nat)"
      using nu by simp
    have c2: "2 \<le> a + 1 \<and> unchangedAt env (a + 1) \<and> unchangedAt env (a + 1 - 1) \<longrightarrow> 2 \<le> (0::nat)"
      using nu by simp
    have "scrolled (snd (scrollLoop env (a + 1) (linkCount env (a + 1)) 0 ?sc1)) \<le> k"
      using Suc.hyps(1) [OF m sc1 refl c1 c2 k] Suc.prems by simp
    with changed show ?thesis
      by (simp add: scrollLoop_changed)
  qed
qed

text \<open>The count returned is the one of the last iteration.\<close>

lemma scrollLoop_count:
  assumes "scrolled sc = a" and "cur = linkCount env a"
  shows "fst (scrollLoop env a cur c sc) = linkCount env (scrolled (snd (scrollLoop env a cur c sc)))"
  using assms
proof (induction "50 - a" arbitrary: a cur c sc)
  case 0
  then show ?case by (simp add: scrollLoop_exit)
next
  case (Suc m)
  let ?sc1 = "sc\<lparr>scrollTop := scrollHeight env (a + 1), scrolled := scrolled sc + 1\<rparr>"
  from Suc.hyps have a: "a < 50" and m: "m = 50 - (a + 1)" by simp_all
  have sc1: "scrolled ?sc1 = a + 1"
    using Suc.prems by simp
  show ?case
  proof (cases rule: scrollLoop_cases [where a = a and env = env and cur = cur and c = c])
    case exit
    with a show ?thesis by simp
  next
    case break
    with Suc.prems show ?thesis
      by (simp add: scrollLoop_break)
  next
    case same
    with Suc.hyps(1) [OF m sc1, of cur "c + 1"] show ?thesis
      by (simp add: scrollLoop_same)
  next
    case changed
    with Suc.hyps(1) [OF m sc1 refl, of 0] show ?thesis
      by (simp add: scrollLoop_changed)
  qed
qed

lemma load_Some:
  "loadAllSidebarConversations env (Some sc) =
     (fst (scrollLoop env 0 (linkCount env 0) 0 sc),
      Some ((snd (scrollLoop env 0 (linkCount env 0) 0 sc))\<lparr>scrollTop := 0\<rparr>))"
  by (simp add: loadAllSidebarConversations_def split_beta)

text \<open>
  Claim C8, amended. Without a \<open>nav\<close> element the loader returns 0 at once and scrolls
  nothing. Otherwise it returns after \<open>n\<close> scroll iterations with \<open>n \<le> 50\<close>, however the
  count behaves; it returns the count seen in the last iteration and leaves \<open>scrollTop\<close>
  at 0. It stops before the 50th iteration only at an iteration that is the third in a
  row to leave the count unchanged, and it stops at the first such iteration. Unchanged
  means equal: an iteration that finds fewer links than the one before resets the streak
  as an iteration that finds more does.
\<close>

theorem C8_loader:
  "loadAllSidebarConversations env None = (0, None) \<and>
   (scrolled sc = 0 \<longrightarrow>
     (\<exists>n sc'. loadAllSidebarConversations env (Some sc) = (linkCount env n, Some sc') \<and>
        scrolled sc' = n \<and> scrollTop sc' = 0 \<and> n \<le> 50 \<and>
        (n < 50 \<longrightarrow> 3 \<le> n \<and> unchangedAt env n \<and> unchangedAt env (n - 1) \<and> unchangedAt env (n - 2)) \<and>
        (\<forall>k. 3 \<le> k \<and> k \<le> 50 \<and> unchangedAt env k \<and> unchangedAt env (k - 1) \<and> unchangedAt env (k - 2)
              \<longrightarrow> n \<le> k)))"
proof (intro conjI impI)
  show "loadAllSidebarConversations env None = (0, None)"
    by (simp add: loadAllSidebarConversations_def)
next
  assume z: "scrolled sc = 0"
  let ?r = "scrollLoop env 0 (linkCount env 0) 0 sc"
  let ?n = "scrolled (snd ?r)"
  have count: "fst ?r = linkCount env ?n"
    using scrollLoop_count [OF z refl] .
  have upper: "?n \<le> 50"
    using scrollLoop_scrolled_upper [where env = env and a = 0 and cur = "linkCount env 0" and c = 0 and sc = sc] z by simp
  have early: "?n < 50 \<longrightarrow> 3 \<le> ?n \<and> unchangedAt env ?n \<and> unchangedAt env (?n - 1) \<and> unchangedAt env (?n - 2)"
    using scrollLoop_early [where c = 0, OF z refl _ _ refl] by simp
  have stops: "\<forall>k. 3 \<le> k \<and> k \<le> 50 \<and> unchangedAt env k \<and> unchangedAt env (k - 1) \<and> unchangedAt env (k - 2)
              \<longrightarrow> ?n \<le> k"
    using scrollLoop_stops [where c = 0, OF z refl] by simp
  show "\<exists>n sc'. loadAllSidebarConversations env (Some sc) = (linkCount env n, Some sc') \<and>
        scrolled sc' = n \<and> scrollTop sc' = 0 \<and> n \<le> 50 \<and>
        (n < 50 \<longrightarrow> 3 \<le> n \<and> unchangedAt env n \<and> unchangedAt env (n - 1) \<and> unchangedAt env (n - 2)) \<and>
        (\<forall>k. 3 \<le> k \<and> k \<le> 50 \<and> unchangedAt env k \<and> unchangedAt env (k - 1) \<and> unchangedAt env (k - 2)
              \<longrightarrow> n \<le> k)"
  proof (intro exI conjI)
    show "loadAllSidebarConversations env (Some sc) = (linkCount env ?n, Some ((snd ?r)\<lparr>scrollTop := 0\<rparr>))"
      using count by (simp add: load_Some)
  qed (use upper early stops in simp_all)
qed

text \<open>
  Witness for C8: a list that grows from 5 to 8 links in the first iteration and then
  stays is left after 4 iterations, with the count 8; a list that grows in every
  iteration is left after 50 iterations; both with \<open>scrollTop\<close> back at 0.
\<close>

theorem C8_witness:
  "loadAllSidebarConversations stallingSidebar (Some \<lparr>scrollTop = 40, scrolled = 0\<rparr>) =
     (8, Some \<lparr>scrollTop = 0, scrolled = 4\<rparr>) \<and>
   loadAllSidebarConversations growingSidebar (Some \<lparr>scrollTop = 40, scrolled = 0\<rparr>) =
     (500, Some \<lparr>scrollTop = 0, scrolled = 50\<rparr>)"
proof
  let ?sc = "\<lparr>scrollTop = 40, scrolled = 0\<rparr>"
  have u: "unchangedAt stallingSidebar k = (k = 0 \<or> 2 \<le> k)" for k
    by (auto simp: unchangedAt_def stallingSidebar_def)
  from C8_loader [of stallingSidebar ?sc]
  obtain n sc' where r: "loadAllSidebarConversations stallingSidebar (Some ?sc) = (linkCount stallingSidebar n, Some sc')"
    and s: "scrolled sc' = n" "scrollTop sc' = 0"
    and e: "n < 50 \<longrightarrow> 3 \<le> n \<and> unchangedAt stallingSidebar n \<and> unchangedAt stallingSidebar (n - 1) \<and> unchangedAt stallingSidebar (n - 2)"
    and l: "\<forall>k. 3 \<le> k \<and> k \<le> 50 \<and> unchangedAt stallingSidebar k \<and> unchangedAt stallingSidebar (k - 1) \<and> unchangedAt stallingSidebar (k - 2) \<longrightarrow> n \<le> k"
    by auto
  from l [rule_format, of 4] have "n \<le> 4" by (simp add: u)
  moreover from this e have "4 \<le> n" by (simp add: u) arith
  ultimately have "n = 4" by simp
  with r s show "loadAllSidebarConversations stallingSidebar (Some ?sc) = (8, Some \<lparr>scrollTop = 0, scrolled = 4\<rparr>)"
    by (cases sc') (simp add: stallingSidebar_def)
next
  let ?sc = "\<lparr>scrollTop = 40, scrolled = 0\<rparr>"
  have u: "unchangedAt growingSidebar k = (k = 0)" for k
    by (cases k) (auto simp: unchangedAt_def growingSidebar_def)
  from C8_loader [of growingSidebar ?sc]
  obtain n sc' where r: "loadAllSidebarConversations growingSidebar (Some ?sc) = (linkCount growingSidebar n, Some sc')"
    and s: "scrolled sc' = n" "scrollTop sc' = 0" "n \<le> 50"
    and e: "n < 50 \<longrightarrow> 3 \<le> n \<and> unchangedAt growingSidebar n \<and> unchangedAt growingSidebar (n - 1) \<and> unchangedAt growingSidebar (n - 2)"
    by auto
  from e s have "n = 50" by (auto simp: u)
  with r s show "loadAllSidebarConversations growingSidebar (Some ?sc) = (500, Some \<lparr>scrollTop = 0, scrolled = 50\<rparr>)"
    by (cases sc') (simp add: growingSidebar_def)
qed

text \<open>
  Claim C8 as stated fails: when the sidebar loses one link per iteration, iterations 1,
  2 and 3 show no growth in the count, yet the loader does not stop early; it runs all
  50 iterations.
\<close>

theorem C8_counterexample:
  "linkCount shrinkingSidebar 1 \<le> linkCount shrinkingSidebar 0 \<and>
   linkCount shrinkingSidebar 2 \<le> linkCount shrinkingSidebar 1 \<and>
   linkCount shrinkingSidebar 3 \<le> linkCount shrinkingSidebar 2 \<and>
   loadAllSidebarConversations shrinkingSidebar (Some \<lparr>scrollTop = 0, scrolled = 0\<rparr>) =
     (50, Some \<lparr>scrollTop = 0, scrolled = 50\<rparr>)"
proof -
  let ?sc = "\<lparr>scrollTop = 0, scrolled = 0\<rparr>"
  let ?r = "scrollLoop shrinkingSidebar 0 (linkCount shrinkingSidebar 0) 0 ?sc"
  have u: "\<not> unchangedAt shrinkingSidebar k" if "3 \<le> k" "k < 50" for k
    using that by (simp add: unchangedAt_def shrinkingSidebar_def)
  have "scrolled (snd ?r) \<le> 50"
    using scrollLoop_scrolled_upper [where env = shrinkingSidebar and a = 0 and cur = "linkCount shrinkingSidebar 0" and c = 0 and sc = ?sc] by simp
  moreover have "\<not> scrolled (snd ?r) < 50"
    using scrollLoop_early [where sc = ?sc and a = 0 and env = shrinkingSidebar and c = 0, OF _ refl _ _ refl] u
    by fastforce
  ultimately have n: "scrolled (snd ?r) = 50" by simp
  moreover have "fst ?r = linkCount shrinkingSidebar (scrolled (snd ?r))"
    by (rule scrollLoop_count) simp_all
  ultimately have "loadAllSidebarConversations shrinkingSidebar (Some ?sc) = (50, Some \<lparr>scrollTop = 0, scrolled = 50\<rparr>)"
    by (cases "snd ?r") (simp add: load_Some shrinkingSidebar_def)
  then show ?thesis
    by (simp add: shrinkingSidebar_def)
qed

section \<open>Properties of the batch run\<close>

lemma results_report: "results (report c t ti s st) = results st"
  by (simp add: report_def)

lemma exportedSet_report: "exportedSet (report c t ti s st) = exportedSet st"
  by (simp add: report_def)

lemma outside_report: "outside (report c t ti s st) = outside st"
  by (simp add: report_def)

lemma results_itemFailed:
  "countedFailed (results st) (results (itemFailed msg st))"
  by (auto simp: countedFailed_def itemFailed_def)

text \<open>The three changes exclude each other.\<close>

lemma counted_exclusive:
  "\<not> (countedExported r r' \<and> countedSkipped r r')"
  "\<not> (countedExported r r' \<and> countedFailed r r')"
  "\<not> (countedSkipped r r' \<and> countedFailed r r')"
proof -
  have e: "countedExported r r' \<Longrightarrow> res_exported r' = res_exported r + 1 \<and> res_skipped r' = res_skipped r"
    by (simp add: countedExported_def)
  have s: "countedSkipped r r' \<Longrightarrow> res_exported r' = res_exported r \<and> res_skipped r' = res_skipped r + 1"
    by (simp add: countedSkipped_def)
  have f: "countedFailed r r' \<Longrightarrow> res_exported r' = res_exported r \<and> res_skipped r' = res_skipped r"
    by (auto simp: countedFailed_def)
  show "\<not> (countedExported r r' \<and> countedSkipped r r')"
    using e s by fastforce
  show "\<not> (countedExported r r' \<and> countedFailed r r')"
    using e f by fastforce
  show "\<not> (countedSkipped r r' \<and> countedFailed r r')"
    using s f by fastforce
qed

text \<open>
  The paths of one turn of the loop: the candidate is skipped, it fails, or it is
  exported; what each path does to the tally and to the run's copy of the tracking set.
\<close>

lemma processLink_paths:
  "(link_id l \<in> set (exportedSet st) \<and>
      countedSkipped (results st) (results (processLink i n l e st)) \<and>
      exportedSet (processLink i n l e st) = exportedSet st) \<or>
   (link_id l \<notin> set (exportedSet st) \<and>
      countedFailed (results st) (results (processLink i n l e st)) \<and>
      exportedSet (processLink i n l e st) = exportedSet st) \<or>
   (link_id l \<notin> set (exportedSet st) \<and>
      countedExported (results st) (results (processLink i n l e st)) \<and>
      exportedSet (processLink i n l e st) = setAdd (link_id l) (exportedSet st))"
proof (cases "link_id l \<in> set (exportedSet st)")
  case True
  then show ?thesis
    by (simp add: processLink_def Let_def countedSkipped_def results_report exportedSet_report)
next
  case notin: False
  let ?st2 = "report (i + 1) n (link_title l) ''loading'' (report (i + 1) n (link_title l) ''checking'' st)"
  have failed: "countedFailed (results st) (results (itemFailed msg (st'\<lparr>outside := w\<rparr>))) \<and>
      exportedSet (itemFailed msg (st'\<lparr>outside := w\<rparr>)) = exportedSet st"
    if "results st' = results st" "exportedSet st' = exportedSet st" for msg st' w
    using that by (auto simp: countedFailed_def itemFailed_def)
  have failed': "countedFailed (results st) (results (itemFailed msg st')) \<and>
      exportedSet (itemFailed msg st') = exportedSet st"
    if "results st' = results st" "exportedSet st' = exportedSet st" for msg st'
    using that by (auto simp: countedFailed_def itemFailed_def)
  show ?thesis
  proof (cases "linkElement e")
    case Found
    show ?thesis
      using notin Found
      by (auto simp: processLink_def Let_def countedExported_def countedFailed_def itemFailed_def
          results_report exportedSet_report outside_report
          split: option.splits sum.splits prod.splits)
  next
    case NotFound
    with notin have "processLink i n l e st = itemFailed (''Link not found: '' @ link_title l) ?st2"
      by (simp add: processLink_def Let_def exportedSet_report)
    with notin failed' [of ?st2] show ?thesis
      by (simp add: results_report exportedSet_report)
  next
    case (SyntaxError err)
    with notin have "processLink i n l e st = itemFailed (''Error: '' @ link_title l @ '' - '' @ err) ?st2"
      by (simp add: processLink_def Let_def exportedSet_report)
    with notin failed' [of ?st2] show ?thesis
      by (simp add: results_report exportedSet_report)
  qed
qed

lemma processLink_counts:
  "countedExported (results st) (results (processLink i n l e st)) \<or>
   countedSkipped (results st) (results (processLink i n l e st)) \<or>
   countedFailed (results st) (results (processLink i n l e st))"
  using processLink_paths [of l st i n e] by blast

lemma events_itemFailed: "events (itemFailed msg st) = events st"
  by (simp add: itemFailed_def)

lemma events_report:
  "events (report c t ti s st) =
     events st @ [\<lparr>pr_current = c, pr_total = t, pr_title = ti, pr_status = s\<rparr>]"
  by (simp add: report_def)

lemma processLink_checking:
  "filter isChecking (events (processLink i n l e st)) =
     filter isChecking (events st) @ [checkingEvent n (i, l)]"
  by (auto simp: processLink_def Let_def events_report events_itemFailed isChecking_def checkingEvent_def
      split: option.splits sum.splits prod.splits lookup.splits)

lemma counted_tally:
  assumes "countedExported r r' \<or> countedSkipped r r' \<or> countedFailed r r'"
  shows "res_exported r' + res_skipped r' + res_failed r' = res_exported r + res_skipped r + res_failed r + 1"
    and "res_total r' = res_total r"
    and "length (res_errors r') + res_failed r = length (res_errors r) + res_failed r'"
  using assms by (auto simp: countedExported_def countedSkipped_def countedFailed_def)

lemma exportLoop_tally:
  "res_exported (results (exportLoop env i n ls st)) + res_skipped (results (exportLoop env i n ls st)) +
     res_failed (results (exportLoop env i n ls st)) =
   res_exported (results st) + res_skipped (results st) + res_failed (results st) + length ls \<and>
   res_total (results (exportLoop env i n ls st)) = res_total (results st) \<and>
   length (res_errors (results (exportLoop env i n ls st))) + res_failed (results st) =
   length (res_errors (results st)) + res_failed (results (exportLoop env i n ls st))"
proof (induction ls arbitrary: i st)
  case Nil
  show ?case by simp
next
  case (Cons l ls)
  note step = counted_tally [OF processLink_counts [where st = st and i = i and n = n and l = l and e = "env i"]]
  from Cons [of "i + 1" "processLink i n l (env i) st"] step show ?case
    by simp
qed

lemma exportLoop_checking:
  "filter isChecking (events (exportLoop env i n ls st)) =
     filter isChecking (events st) @ map (checkingEvent n) (enumerate i ls)"
proof (induction ls arbitrary: i st)
  case Nil
  show ?case by simp
next
  case (Cons l ls)
  from Cons [of "i + 1" "processLink i n l (env i) st"] show ?case
    by (simp add: processLink_checking)
qed

lemma links_length: "length (getAllConversationLinks as) = length as"
  by (simp add: getAllConversationLinks_def)

text \<open>
  Claim C7. One turn of the loop changes the tally in exactly one of three ways, which
  exclude each other: it adds one to \<open>exported\<close>, or one to \<open>skipped\<close>, or one to
  \<open>failed\<close> together with one message appended to \<open>errors\<close>; nothing else in the
  results changes. A run that finds
  at least one candidate returns results (not the error of the run with no candidates)
  with \<open>total\<close> the number of candidates, \<open>exported + skipped + failed = total\<close> and as
  many error messages as failures; and it has checked every candidate exactly once, in
  list order, whatever happened to the candidates before it.
\<close>

theorem C7_tally:
  "(countedExported (results st) (results (processLink i n l e st)) \<or>
    countedSkipped (results st) (results (processLink i n l e st)) \<or>
    countedFailed (results st) (results (processLink i n l e st))) \<and>
   \<not> (countedExported (results st) (results (processLink i n l e st)) \<and>
      countedSkipped (results st) (results (processLink i n l e st))) \<and>
   \<not> (countedExported (results st) (results (processLink i n l e st)) \<and>
      countedFailed (results st) (results (processLink i n l e st))) \<and>
   \<not> (countedSkipped (results st) (results (processLink i n l e st)) \<and>
      countedFailed (results st) (results (processLink i n l e st))) \<and>
   (anchors env \<noteq> [] \<longrightarrow>
     (\<exists>r. fst (exportAllConversations env w) = Inr r \<and>
          res_total r = length (anchors env) \<and>
          res_exported r + res_skipped r + res_failed r = res_total r \<and>
          length (res_errors r) = res_failed r) \<and>
     filter isChecking (snd (snd (exportAllConversations env w))) =
       map (checkingEvent (length (anchors env))) (enumerate 0 (getAllConversationLinks (anchors env))))"
proof (intro conjI impI)
  show "countedExported (results st) (results (processLink i n l e st)) \<or>
    countedSkipped (results st) (results (processLink i n l e st)) \<or>
    countedFailed (results st) (results (processLink i n l e st))"
    by (rule processLink_counts)
next
  show "\<not> (countedExported (results st) (results (processLink i n l e st)) \<and>
      countedSkipped (results st) (results (processLink i n l e st)))"
    "\<not> (countedExported (results st) (results (processLink i n l e st)) \<and>
      countedFailed (results st) (results (processLink i n l e st)))"
    "\<not> (countedSkipped (results st) (results (processLink i n l e st)) \<and>
      countedFailed (results st) (results (processLink i n l e st)))"
    by (rule counted_exclusive)+
next
  assume a: "anchors env \<noteq> []"
  let ?links = "getAllConversationLinks (anchors env)"
  let ?wl = "w\<lparr>container := snd (loadAllSidebarConversations (sidebar env) (container w))\<rparr>"
  let ?evs = "[\<lparr>pr_current = 0, pr_total = 0, pr_title = ''Loading all conversations...'',
                  pr_status = ''scrolling sidebar''\<rparr>]"
  let ?init = "\<lparr>results = \<lparr>res_total = length ?links, res_exported = 0, res_skipped = 0,
                                   res_failed = 0, res_errors = []\<rparr>,
                       exportedSet = getExportedConversations ?wl,
                       outside = ?wl,
                       events = ?evs\<rparr>"
  let ?st = "exportLoop (item env) 0 (length ?links) ?links ?init"
  from a have ne: "?links \<noteq> []"
    by (simp add: getAllConversationLinks_def)
  then have run: "exportAllConversations env w = (Inr (results ?st), outside ?st, events ?st)"
    by (simp add: exportAllConversations_def Let_def)
  have t: "res_exported (results ?st) + res_skipped (results ?st) + res_failed (results ?st) = length ?links"
    "res_total (results ?st) = length ?links"
    "length (res_errors (results ?st)) = res_failed (results ?st)"
    using exportLoop_tally [where env = "item env" and i = 0 and n = "length ?links" and ls = ?links and st = ?init] by simp_all
  show "\<exists>r. fst (exportAllConversations env w) = Inr r \<and>
          res_total r = length (anchors env) \<and>
          res_exported r + res_skipped r + res_failed r = res_total r \<and>
          length (res_errors r) = res_failed r"
    using run t by (simp add: links_length)
  show "filter isChecking (snd (snd (exportAllConversations env w))) =
       map (checkingEvent (length (anchors env))) (enumerate 0 ?links)"
    using run exportLoop_checking [where env = "item env" and i = 0 and n = "length ?links" and ls = ?links and st = ?init]
    by (simp add: isChecking_def links_length)
qed

lemma steady_load:
  "loadAllSidebarConversations steadySidebar (Some \<lparr>scrollTop = 0, scrolled = 0\<rparr>) =
     (2, Some \<lparr>scrollTop = 0, scrolled = 3\<rparr>)"
  by (simp add: loadAllSidebarConversations_def steadySidebar_def scrollLoop.simps)

text \<open>The id in a path \<open>/c/cid\<close> whose \<open>cid\<close> is made of the characters \<open>a-f\<close>, \<open>0-9\<close> and \<open>-\<close>.\<close>

lemma path_id:
  assumes "cid \<noteq> []" and "\<forall>c\<in>set cid. isIdChar c"
  shows "getConversationIdFromUrl (''/c/'' @ cid) = Some cid"
proof -
  have t: "takeWhile isIdChar cid = cid"
    using assms(2) by (simp add: takeWhile_eq_all_conv)
  show ?thesis
    using assms(1) by (simp add: startsWith_def t)
qed

lemma scenario_ids:
  "getConversationIdFromUrl ''/c/abc'' = Some ''abc''"
  "getConversationIdFromUrl ''/c/a1'' = Some ''a1''"
  "getConversationIdFromUrl ''/c/b1'' = Some ''b1''"
  "getConversationIdFromUrl ''/c/d1'' = Some ''d1''"
  "getConversationIdFromUrl ''/c/e1'' = Some ''e1''"
  "getConversationIdFromUrl ''/c/f1'' = Some ''f1''"
  using path_id [of "''abc''"] path_id [of "''a1''"] path_id [of "''b1''"] path_id [of "''d1''"]
    path_id [of "''e1''"] path_id [of "''f1''"]
  by (simp_all add: isIdChar_def)

lemma userPage_extract:
  "extractCurrentConversation (userPage cid) =
     Some (Some \<lparr>conv_id = getConversationIdFromUrl (''/c/'' @ cid), conv_title = Some ''Chat'',
                 conv_date = Some ''2026-01-30'',
                 conv_url = Some (''https://chatgpt.com/c/'' @ cid),
                 conv_messages = [\<lparr>role = ''user'', content = ''Hi''\<rparr>]\<rparr>)"
  by (simp add: extractCurrentConversation_def userPage_def userContent_def extractMessage_def
      htmlToMarkdown_def cloneNode_def trim_def isWhiteSpace_def)

lemma loadedItem_fields:
  "linkElement (loadedItem cid d cs) = Found" "shown (loadedItem cid d cs) = userPage cid"
  "delivered (loadedItem cid d cs) = d" "concurrent (loadedItem cid d cs) = cs"
  by (simp_all add: loadedItem_def)

lemma loadedItem_wait:
  "getConversationIdFromUrl (''/c/'' @ cid) = Some cid \<Longrightarrow> waitForConversationLoad cid (loadedItem cid d cs)"
  by (simp add: waitForConversationLoad_def loadedItem_def waitLoop.simps)

lemma chat_filename:
  "exportFilename \<lparr>conv_id = i, conv_title = Some ''Chat'', conv_date = d, conv_url = u, conv_messages = ms\<rparr> = ''Chat.md''"
  by (simp add: exportFilename_def sanitizeFilename_def removeInvalid_def isInvalidChar_def
      isWhiteSpace_def trimUnderscores_def)

lemma links_abc:
  "getAllConversationLinks [(''/c/abc'', ''Chat'')] =
     [\<lparr>link_id = ''abc'', link_title = ''Chat'', link_href = ''/c/abc'', link_url = ''https://chatgpt.com/c/abc''\<rparr>]"
  by (simp add: getAllConversationLinks_def startsWith_def trim_def isWhiteSpace_def)

text \<open>
  Claim C3 against the code. The browser rejects the download of the only candidate
  \<open>abc\<close>, so the service worker answers \<open>{success: false, error}\<close> and starts no
  download. The batch run does not look at \<open>response.success\<close>: it counts the item as
  exported, reports no failure, and writes \<open>abc\<close> to the Tracking Store. The single-item
  path, given the same page and the same rejection, leaves the Tracking Store alone.
\<close>

theorem C3_failure_counted_as_exported:
  "fst (exportAllConversations failingRun freshWorld) =
     Inr \<lparr>res_total = 1, res_exported = 1, res_skipped = 0, res_failed = 0, res_errors = []\<rparr> \<and>
   storage (fst (snd (exportAllConversations failingRun freshWorld))) = Some [''abc''] \<and>
   downloads (fst (snd (exportAllConversations failingRun freshWorld))) = [] \<and>
   storage (snd (exportCurrentConversation (userPage ''abc'') (Delivered (Rejected ''Download failed'')) freshWorld)) = None"
proof -
  have w: "waitForConversationLoad ''abc'' (loadedItem ''abc'' d cs)" for d cs
    using loadedItem_wait [of "''abc''"] scenario_ids by simp
  have x: "extractCurrentConversation (userPage ''abc'') =
     Some (Some \<lparr>conv_id = Some ''abc'', conv_title = Some ''Chat'',
                 conv_date = Some ''2026-01-30'',
                 conv_url = Some ''https://chatgpt.com/c/abc'',
                 conv_messages = [\<lparr>role = ''user'', content = ''Hi''\<rparr>]\<rparr>)"
    using userPage_extract [of "''abc''"] scenario_ids by simp
  show ?thesis
    by (simp add: exportAllConversations_def failingRun_def freshWorld_def steady_load links_abc
      getExportedConversations_def setFromArray_def processLink_def report_def w
      x chat_filename sendDownload_def downloadFile_def markAsExported_def truthy_def
      setAdd_def exportCurrentConversation_def Let_def loadedItem_fields runConcurrent_def)
qed

lemma scenario_waits:
  "waitForConversationLoad ''a1'' (loadedItem ''a1'' d cs)"
  "waitForConversationLoad ''b1'' (loadedItem ''b1'' d cs)"
  "waitForConversationLoad ''e1'' (loadedItem ''e1'' d cs)"
  using loadedItem_wait [of "''a1''"] loadedItem_wait [of "''b1''"] loadedItem_wait [of "''e1''"] scenario_ids
  by simp_all

lemma scenario_pages:
  "extractCurrentConversation (userPage ''a1'') =
     Some (Some \<lparr>conv_id = Some ''a1'', conv_title = Some ''Chat'', conv_date = Some ''2026-01-30'',
                 conv_url = Some ''https://chatgpt.com/c/a1'',
                 conv_messages = [\<lparr>role = ''user'', content = ''Hi''\<rparr>]\<rparr>)"
  "extractCurrentConversation (userPage ''b1'') =
     Some (Some \<lparr>conv_id = Some ''b1'', conv_title = Some ''Chat'', conv_date = Some ''2026-01-30'',
                 conv_url = Some ''https://chatgpt.com/c/b1'',
                 conv_messages = [\<lparr>role = ''user'', content = ''Hi''\<rparr>]\<rparr>)"
  "extractCurrentConversation (userPage ''e1'') =
     Some (Some \<lparr>conv_id = Some ''e1'', conv_title = Some ''Chat'', conv_date = Some ''2026-01-30'',
                 conv_url = Some ''https://chatgpt.com/c/e1'',
                 conv_messages = [\<lparr>role = ''user'', content = ''Hi''\<rparr>]\<rparr>)"
  using userPage_extract [of "''a1''"] userPage_extract [of "''b1''"] userPage_extract [of "''e1''"] scenario_ids
  by simp_all
















lemma links_mixed:
  "getAllConversationLinks [(''/c/d1'', ''Old''), (''/c/f1'', ''Gone''), (''/c/e1'', ''New'')] =
     [linkOf ''d1'' ''Old'', linkOf ''f1'' ''Gone'', linkOf ''e1'' ''New'']"
  by (simp add: getAllConversationLinks_def startsWith_def trim_def isWhiteSpace_def linkOf_def)

text \<open>
  Witness for C7: a run of three candidates, of which the first is tracked already, the
  link of the second is not found, and the third is exported.
\<close>

theorem C7_witness:
  "anchors mixedRun \<noteq> [] \<and>
   fst (exportAllConversations mixedRun trackedWorld) =
     Inr \<lparr>res_total = 3, res_exported = 1, res_skipped = 1, res_failed = 1,
          res_errors = [''Link not found: Gone'']\<rparr>"
proof -
  have a: "anchors mixedRun \<noteq> []"
    by (simp add: mixedRun_def)
  with C7_tally [where env = mixedRun and w = trackedWorld]
  obtain r where r: "fst (exportAllConversations mixedRun trackedWorld) = Inr r"
    and t: "res_total r = length (anchors mixedRun)"
      "res_exported r + res_skipped r + res_failed r = res_total r"
      "length (res_errors r) = res_failed r"
    by blast
  have "fst (exportAllConversations mixedRun trackedWorld) =
     Inr \<lparr>res_total = 3, res_exported = 1, res_skipped = 1, res_failed = 1,
          res_errors = [''Link not found: Gone'']\<rparr>"
    by (simp add: exportAllConversations_def mixedRun_def trackedWorld_def steady_load links_mixed linkOf_def
      getExportedConversations_def setFromArray_def processLink_def report_def itemFailed_def scenario_waits
      scenario_pages chat_filename sendDownload_def downloadFile_def markAsExported_def truthy_def
      setAdd_def Let_def loadedItem_fields runConcurrent_def)
  with a r t show ?thesis by simp
qed

end
